theory Spec2Isabelle
  imports Complex_Main
begin

section \<open>Data model\<close>

text \<open>
  The exporter is JavaScript. Its strings are modelled as \<open>string\<close> (a list of bytes,
  the UTF-8 form of the JavaScript string). Its numbers are IEEE doubles; the model keeps
  the finite ones as exact rationals and adds the three special values a division can
  produce, so rounding is not modelled and \<open>-0\<close> is identified with \<open>0\<close>.
\<close>

datatype jsnum = Finite rat | PosInfinity | NegInfinity | NaN

text \<open>\<open>a / b\<close> on two finite numbers, as JavaScript evaluates it: no exception on zero.\<close>

definition js_divide :: "rat \<Rightarrow> rat \<Rightarrow> jsnum" where
  "js_divide a b =
     (if b = 0 then (if a = 0 then NaN else if 0 < a then PosInfinity else NegInfinity)
      else Finite (a / b))"

text \<open>\<open>rate > 1\<close>: any comparison with NaN is false.\<close>

fun gt_one :: "jsnum \<Rightarrow> bool" where
  "gt_one (Finite r) = (1 < r)"
| "gt_one PosInfinity = True"
| "gt_one NegInfinity = False"
| "gt_one NaN = False"

text \<open>
  The pod descriptor returned by \<open>listPods\<close> (\<open>PodInfo\<close> of \<open>./list-pods\<close>), with the
  fields \<open>collect.js\<close> reads: \<open>pod.metadata.name\<close>, \<open>pod.metadata.namespace\<close>,
  \<open>pod.spec.containers[].name\<close>, \<open>.resources.{limits,requests}.{memory,cpu}\<close> and
  \<open>pod.status.phase\<close>. A field the code tests before use is optional.
\<close>

record quantities =
  memory :: "string option"
  cpu :: "string option"

record resources =
  limits :: "quantities option"
  requests :: "quantities option"

record spec_container =
  spec_name :: string
  spec_resources :: "resources option"

record pod =
  metadata_name :: string
  metadata_namespace :: string
  spec_containers :: "spec_container list"
  status_phase :: string

text \<open>
  The decoded response of the metrics endpoint. \<open>ContainerMetrics\<close> and the object body
  have the shape the source's JSDoc declares
  (\<open>{ kind: string, containers: Array<ContainerMetrics>, timestamp: string }\<close>); the other
  constructors of \<open>body\<close> are the JSON values the code tests for and rejects.
\<close>

record container_metrics =
  container_name :: string
  usage_memory :: string
  usage_cpu :: string

record pod_metrics =
  body_kind :: string
  body_containers :: "container_metrics list"
  body_timestamp :: string

datatype js_primitive = JsNumber rat | JsString string | JsBoolean bool

datatype body = Primitive js_primitive | ArrayBody | NullBody | ObjectBody pod_metrics

fun typeof :: "js_primitive \<Rightarrow> string" where
  "typeof (JsNumber _) = ''number''"
| "typeof (JsString _) = ''string''"
| "typeof (JsBoolean _) = ''boolean''"

text \<open>An opaque handle for the optional \<open>https.Agent\<close>.\<close>

type_synonym agent = nat

record request =
  req_url :: string
  req_timeout :: nat
  req_headers :: "(string \<times> string) list"
  req_agent :: "agent option"

text \<open>\<open>response.json()\<close> rejects on a body that is not JSON: \<open>None\<close>.\<close>

record response =
  status :: int
  url :: string
  json :: "body option"

text \<open>\<open>PrometheusMetric\<close> of \<open>./serialize\<close>, as the object literals of \<open>collect.js\<close> build it.\<close>

record metric =
  m_name :: string
  m_labels :: "(string \<times> string) list"
  m_type :: string
  m_help :: string
  m_value :: jsnum
  m_timestamp :: jsnum

text \<open>
  Every \<open>throw\<close> and rejection is a value. The source throws plain \<open>Error\<close>s whose
  message interpolates the offending value; the constructor carries that value:
  \<^item> \<open>UpstreamError status url\<close>: ``OS API returned status code ${status} for ${url}'';
  \<^item> \<open>UpstreamShapeError (NotAnObject t)\<close>: ``Expected OS API to return an object but got
    ${typeof body}'', \<open>IsAnArray\<close>: ``... but got an array'', \<open>IsNull\<close>: ``... but got null'',
    \<open>NotPodMetrics k\<close>: ``Expected OS API to return a PodMetrics but got ${body.kind}'';
  \<^item> \<open>ParseError raw\<close>: a quantity parser threw on \<open>raw\<close>;
  \<^item> \<open>FetchError\<close>: \<open>fetch\<close> or \<open>response.json()\<close> rejected;
  \<^item> \<open>ListError\<close>: \<open>listPods\<close> rejected;
  \<^item> \<open>TypeError\<close>: a property of \<open>null\<close> or \<open>undefined\<close> was read;
  \<^item> \<open>InvalidConcurrency\<close>: the pool refused its concurrency argument.
\<close>

datatype shape_violation = NotAnObject string | IsAnArray | IsNull | NotPodMetrics string

datatype error =
    UpstreamError int string
  | UpstreamShapeError shape_violation
  | ParseError string
  | FetchError
  | ListError
  | TypeError
  | InvalidConcurrency

text \<open>One call of \<open>logger.warn\<close>: the format string and its arguments.\<close>

datatype log_arg = LStr string | LNum jsnum

type_synonym log_entry = "string \<times> log_arg list"

text \<open>
  What \<open>collect.js\<close> imports and calls but does not define: the pod lister and the two
  quantity parsers (files of this repository that are not part of the sources at hand),
  \<open>node-fetch\<close> and the \<open>Date\<close> built-in. They are parameters of the model; \<open>None\<close> is a
  rejection or a throw, and for \<open>date_getTime\<close> the NaN of an invalid date.
\<close>

record collaborators =
  listPods :: "string \<Rightarrow> string \<Rightarrow> string \<Rightarrow> agent option \<Rightarrow> pod list option"
  fetch :: "request \<Rightarrow> response option"
  parse_memory :: "string \<Rightarrow> rat option"
  parse_cpu :: "string \<Rightarrow> rat option"
  date_getTime :: "string \<Rightarrow> int option"

text \<open>The result of a computation that logs and may throw: the warnings come first.\<close>

type_synonym 'a logged = "log_entry list \<times> (error + 'a)"

text \<open>
  Statement sequencing for blocks that push metrics: the second block runs only when the
  first did not throw, and what the first logged stays logged either way.
\<close>

fun and_then :: "metric list logged \<Rightarrow> metric list logged \<Rightarrow> metric list logged" where
  "and_then (w1, Inl e) _ = (w1, Inl e)"
| "and_then (w1, Inr m1) (w2, Inl e) = (w1 @ w2, Inl e)"
| "and_then (w1, Inr m1) (w2, Inr m2) = (w1 @ w2, Inr (m1 @ m2))"

section \<open>The usage fetcher (\<open>src/metrics/collect.js\<close>)\<close>

text \<open>\<open>encodeURIComponent\<close> on the UTF-8 bytes of its argument.\<close>

definition unreserved :: "char \<Rightarrow> bool" where
  "unreserved c =
     (c \<in> set ''ABCDEFGHIJKLMNOPQRSTUVWXYZabcdefghijklmnopqrstuvwxyz0123456789-_.!~*'()'')"

definition hex_digit :: "nat \<Rightarrow> char" where
  "hex_digit n = ''0123456789ABCDEF'' ! (n mod 16)"

definition encodeURIComponent :: "string \<Rightarrow> string" where
  "encodeURIComponent s =
     concat (map (\<lambda>c. if unreserved c then [c]
                       else [CHR ''%'', hex_digit (of_char c div 16), hex_digit (of_char c)]) s)"

text \<open>\<open>dateToTimeStamp\<close>: \<open>new Date(date).getTime() / 1000\<close>.\<close>

definition dateToTimeStamp :: "collaborators \<Rightarrow> string \<Rightarrow> jsnum" where
  "dateToTimeStamp co date =
     (case date_getTime co date of None \<Rightarrow> NaN | Some ms \<Rightarrow> Finite (of_int ms / 1000))"

text \<open>
  \<open>specContainer && specContainer.resources && specContainer.resources.limits &&
  specContainer.resources.limits.memory\<close>: the value of the chain when every object on
  the way is there. \<open>truthy\<close> is the test \<open>if\<close> applies to it: an absent field and the
  empty string are falsy.
\<close>

definition declared ::
  "(resources \<Rightarrow> quantities option) \<Rightarrow> (quantities \<Rightarrow> string option) \<Rightarrow>
   spec_container option \<Rightarrow> string option" where
  "declared bound quantity specContainer =
     (case specContainer of None \<Rightarrow> None
      | Some sc \<Rightarrow>
        (case spec_resources sc of None \<Rightarrow> None
         | Some r \<Rightarrow> (case bound r of None \<Rightarrow> None | Some q \<Rightarrow> quantity q)))"

fun truthy :: "string option \<Rightarrow> bool" where
  "truthy None = False"
| "truthy (Some s) = (s \<noteq> [])"

definition metric_labels :: "pod \<Rightarrow> container_metrics \<Rightarrow> (string \<times> string) list" where
  "metric_labels p container =
     [(''pod'', metadata_name p), (''container'', container_name container),
      (''namespace'', metadata_namespace p)]"

definition gauge ::
  "string \<Rightarrow> string \<Rightarrow> pod \<Rightarrow> container_metrics \<Rightarrow> jsnum \<Rightarrow> jsnum \<Rightarrow> metric" where
  "gauge nm hlp p container v ts =
     \<lparr>m_name = nm, m_labels = metric_labels p container, m_type = ''gauge'', m_help = hlp,
      m_value = v, m_timestamp = ts\<rparr>"

definition rate_warning ::
  "string \<Rightarrow> pod \<Rightarrow> container_metrics \<Rightarrow> string \<Rightarrow> rat \<Rightarrow> rat \<Rightarrow> jsnum \<Rightarrow> log_entry" where
  "rate_warning nm p container raw spec usage rate =
     (nm @ '' is > 1 for pod %s container %s spec %s (%j) usage (%j) = %j'',
      [LStr (metadata_name p), LStr (container_name container), LStr raw,
       LNum (Finite spec), LNum (Finite usage), LNum rate])"

text \<open>
  One of the four conditional blocks of the \<open>forEach\<close> callback (lines 146-277). They
  differ in the parser, the metric name, the help text and the declared quantity read,
  which are the parameters here.
\<close>

definition rate_block ::
  "(string \<Rightarrow> rat option) \<Rightarrow> string \<Rightarrow> string \<Rightarrow> pod \<Rightarrow> container_metrics \<Rightarrow> jsnum \<Rightarrow>
   rat \<Rightarrow> string option \<Rightarrow> metric list logged" where
  "rate_block parse nm hlp p container ts usage decl =
     (if truthy decl then
        (case parse (the decl) of
           None \<Rightarrow> ([], Inl (ParseError (the decl)))
         | Some spec \<Rightarrow>
             (let rate = js_divide usage spec in
              (if gt_one rate then [rate_warning nm p container (the decl) spec usage rate]
               else [],
               Inr [gauge nm hlp p container rate ts])))
      else ([], Inr []))"

text \<open>\<open>pod.spec.containers.find((cont) => cont.name === container.name)\<close>\<close>

definition find_spec_container :: "pod \<Rightarrow> container_metrics \<Rightarrow> spec_container option" where
  "find_spec_container p container =
     find (\<lambda>cont. spec_name cont = container_name container) (spec_containers p)"

text \<open>The callback of \<open>containers.forEach\<close> (lines 116-279), for one container.\<close>

definition processContainer ::
  "collaborators \<Rightarrow> pod \<Rightarrow> jsnum \<Rightarrow> container_metrics \<Rightarrow> metric list logged" where
  "processContainer co p ts container =
     (case parse_memory co (usage_memory container) of
        None \<Rightarrow> ([], Inl (ParseError (usage_memory container)))
      | Some parsedMemoryUsage \<Rightarrow>
     (case parse_cpu co (usage_cpu container) of
        None \<Rightarrow> ([], Inl (ParseError (usage_cpu container)))
      | Some parsedCpuUsage \<Rightarrow>
     (let specContainer = find_spec_container p container in
      and_then
        ([], Inr [gauge ''osmetrics_pod_memory_usage_bytes'' ''Pod Memory Usage'' p container
                    (Finite parsedMemoryUsage) ts,
                  gauge ''osmetrics_pod_cpu_usage_millicores'' ''Pod CPU Usage Rate'' p container
                    (Finite parsedCpuUsage) ts])
     (and_then
        (rate_block (parse_memory co) ''osmetrics_pod_memory_usage_limits_rate''
           ''Pod Memory Usage'' p container ts parsedMemoryUsage
           (declared limits memory specContainer))
     (and_then
        (rate_block (parse_memory co) ''osmetrics_pod_memory_usage_requests_rate''
           ''Pod Memory Usage'' p container ts parsedMemoryUsage
           (declared requests memory specContainer))
     (and_then
        (rate_block (parse_cpu co) ''osmetrics_pod_cpu_usage_limits_rate''
           ''Pod CPU Usage rate'' p container ts parsedCpuUsage
           (declared limits cpu specContainer))
        (rate_block (parse_cpu co) ''osmetrics_pod_cpu_usage_requests_rate''
           ''Pod CPU Usage rate'' p container ts parsedCpuUsage
           (declared requests cpu specContainer))))))))"

text \<open>\<open>containers.forEach\<close>: the callback on each container in order, until one throws.\<close>

fun forEach :: "(container_metrics \<Rightarrow> metric list logged) \<Rightarrow> container_metrics list \<Rightarrow>
    metric list logged" where
  "forEach f [] = ([], Inr [])"
| "forEach f (c # cs) = and_then (f c) (forEach f cs)"

text \<open>The request \<open>fetchPodMemoryAndCpuUsage\<close> sends (lines 63-73).\<close>

definition usage_request :: "string \<Rightarrow> string \<Rightarrow> agent option \<Rightarrow> pod \<Rightarrow> request" where
  "usage_request osApi accessToken ag p =
     \<lparr>req_url = osApi @ ''/apis/metrics.k8s.io/v1beta1/namespaces/''
                  @ encodeURIComponent (metadata_namespace p) @ ''/pods/''
                  @ encodeURIComponent (metadata_name p),
      req_timeout = 10000,
      req_headers = [(''Authorization'', ''Bearer '' @ accessToken),
                     (''Accept'', ''application/json'')],
      req_agent = ag\<rparr>"

text \<open>Lines 90-281: the checks on the decoded body, then the metrics of its containers.\<close>

fun metrics_of_body :: "collaborators \<Rightarrow> pod \<Rightarrow> body \<Rightarrow> metric list logged" where
  "metrics_of_body co p (Primitive v) = ([], Inl (UpstreamShapeError (NotAnObject (typeof v))))"
| "metrics_of_body co p ArrayBody = ([], Inl (UpstreamShapeError IsAnArray))"
| "metrics_of_body co p NullBody = ([], Inl (UpstreamShapeError IsNull))"
| "metrics_of_body co p (ObjectBody b) =
     (if body_kind b \<noteq> ''PodMetrics''
      then ([], Inl (UpstreamShapeError (NotPodMetrics (body_kind b))))
      else forEach (processContainer co p (dateToTimeStamp co (body_timestamp b)))
             (body_containers b))"

definition fetchPodMemoryAndCpuUsage ::
  "collaborators \<Rightarrow> pod \<Rightarrow> string \<Rightarrow> string \<Rightarrow> agent option \<Rightarrow> metric list logged" where
  "fetchPodMemoryAndCpuUsage co p accessToken osApi ag =
     (case fetch co (usage_request osApi accessToken ag p) of
        None \<Rightarrow> ([], Inl FetchError)
      | Some response \<Rightarrow>
          if status response < 200 \<or> status response > 299 \<or> status response = 204
          then ([], Inl (UpstreamError (status response) (url response)))
          else (case json response of
                  None \<Rightarrow> ([], Inl FetchError)
                | Some b \<Rightarrow> metrics_of_body co p b))"

section \<open>The quantity parsers (\<open>./parse-memory\<close>, \<open>./parse-cpu\<close>)\<close>

text \<open>
  Modelled from the spec: \<open>src/metrics/parse-memory.js\<close> and \<open>src/metrics/parse-cpu.js\<close>
  are required by \<open>collect.js\<close> but are not among the sources at hand. Section 4.1 of the
  specification describes them: \<open>parseMemory\<close> accepts an optional suffix, binary
  (\<open>Ki\<close>, \<open>Mi\<close>, \<open>Gi\<close>, \<open>Ti\<close>, \<open>Pi\<close>, \<open>Ei\<close>, multipliers \<open>2^10\<close> to \<open>2^60\<close>) or decimal
  (\<open>k\<close>, \<open>M\<close>, \<open>G\<close>, \<open>T\<close>, \<open>P\<close>, \<open>E\<close>, multipliers \<open>10^3\<close> to \<open>10^18\<close>), no suffix
  meaning raw bytes, and fails with a ParseError when the numeric portion is not a valid
  number or the suffix is unrecognized; \<open>parseCpu\<close> reads a trailing \<open>m\<close> as millicores
  and its absence as whole cores to be multiplied by 1000, and fails with a ParseError
  on non-numeric input. \<open>None\<close> is the ParseError. The specification does not give the
  grammar of a number; the one taken here is a non-empty run of decimal digits,
  optionally followed by a point and a second non-empty run of digits.
\<close>

definition is_digit :: "char \<Rightarrow> bool" where
  "is_digit c = (c \<in> set ''0123456789'')"

definition digit_value :: "char \<Rightarrow> nat" where
  "digit_value c = of_char c - 48"

definition digits_value :: "string \<Rightarrow> nat" where
  "digits_value ds = foldl (\<lambda>acc c. 10 * acc + digit_value c) 0 ds"

definition parse_number :: "string \<Rightarrow> rat option" where
  "parse_number s =
     (let whole = takeWhile is_digit s; rest = dropWhile is_digit s in
      if whole = [] then None
      else if rest = [] then Some (of_nat (digits_value whole))
      else if hd rest = CHR ''.'' \<and> tl rest \<noteq> [] \<and> list_all is_digit (tl rest)
      then Some (of_nat (digits_value whole)
                 + of_nat (digits_value (tl rest)) / 10 ^ length (tl rest))
      else None)"

definition memory_multipliers :: "(string \<times> rat) list" where
  "memory_multipliers =
     [([], 1),
      (''Ki'', 2 ^ 10), (''Mi'', 2 ^ 20), (''Gi'', 2 ^ 30),
      (''Ti'', 2 ^ 40), (''Pi'', 2 ^ 50), (''Ei'', 2 ^ 60),
      (''k'', 10 ^ 3), (''M'', 10 ^ 6), (''G'', 10 ^ 9),
      (''T'', 10 ^ 12), (''P'', 10 ^ 15), (''E'', 10 ^ 18)]"

definition is_numeric_char :: "char \<Rightarrow> bool" where
  "is_numeric_char c = (is_digit c \<or> c = CHR ''.'')"

definition parseMemory :: "string \<Rightarrow> rat option" where
  "parseMemory raw =
     (case parse_number (takeWhile is_numeric_char raw) of
        None \<Rightarrow> None
      | Some n \<Rightarrow>
          (case map_of memory_multipliers (dropWhile is_numeric_char raw) of
             None \<Rightarrow> None
           | Some mult \<Rightarrow> Some (n * mult)))"

definition parseCpu :: "string \<Rightarrow> rat option" where
  "parseCpu raw =
     (if raw \<noteq> [] \<and> last raw = CHR ''m'' then parse_number (butlast raw)
      else map_option (\<lambda>cores. cores * 1000) (parse_number raw))"


section \<open>The concurrency pool\<close>

text \<open>
  \<open>Options\<close> of \<open>collect.js\<close>. The logger is not a field: what is logged is part of the
  result. \<open>server.js\<close> can pass a \<open>defaultNamespace\<close> that is \<open>null\<close>, so \<open>namespace\<close> is
  optional here.
\<close>

record options =
  namespace :: "string list option"
  concurrency :: int
  osApi :: string
  accessToken :: string
  agent :: "agent option"

text \<open>
  Modelled from the spec: \<open>collect.js\<close> hands \<open>promiseProducer\<close> to the \<open>PromisePool\<close> of
  the package \<open>es6-promise-pool\<close>, whose code is not among the sources at hand. Section 4.3
  of the specification describes it: it keeps the number of fetches in flight at or
  below the configured concurrency; each time a fetch completes, the next pending pod (if
  any) is dispatched; if any fetch fails the collection fails, and no further pods are
  scheduled once the failure is observed, while pods already in flight settle and their
  results are discarded. The package's constructor also refuses a concurrency below 1,
  on which the specification is silent.

  JavaScript runs one callback at a time, so a collection cycle is a sequence of
  events, each the settling of one fetch in flight. The state holds the two closure
  variables of \<open>collectMetrics\<close> (\<open>allPods\<close>, \<open>metrics\<close>), what was logged, and the pool's
  own state: the pods whose \<open>processPod\<close> promise is pending (the pool's size is their
  number), whether the producer has returned \<open>null\<close>, and the promise of \<open>pool.start()\<close>.
\<close>

datatype promise_state = Pending | Resolved | Rejected error

record pool =
  allPods :: "pod list"
  in_flight :: "pod list"
  metrics :: "metric list"
  warnings :: "log_entry list"
  producer_done :: bool
  promise :: promise_state

text \<open>
  \<open>promiseProducer\<close> (lines 331-339): \<open>allPods.pop()\<close> takes the last pod; on an empty
  array it gives \<open>undefined\<close> and the producer returns \<open>null\<close>.
\<close>

definition promiseProducer :: "pool \<Rightarrow> pod option \<times> pool" where
  "promiseProducer s =
     (if allPods s = [] then (None, s)
      else (Some (last (allPods s)), s\<lparr>allPods := butlast (allPods s)\<rparr>))"

text \<open>The pool asks the producer for promises while it has a free slot.\<close>

function dispatch :: "int \<Rightarrow> pool \<Rightarrow> pool" where
  "dispatch c s =
     (if int (length (in_flight s)) < c then
        (case promiseProducer s of
           (None, s') \<Rightarrow> s'\<lparr>producer_done := True\<rparr>
         | (Some p, s') \<Rightarrow> dispatch c (s'\<lparr>in_flight := in_flight s' @ [p]\<rparr>))
      else s)"
  by pat_completeness auto
termination
  by (relation "measure (\<lambda>(c, s). length (allPods s))")
     (auto simp: promiseProducer_def split: if_splits)

definition proceed :: "int \<Rightarrow> pool \<Rightarrow> pool" where
  "proceed c s =
     (let s' = (if producer_done s then s else dispatch c s) in
      if producer_done s' \<and> in_flight s' = [] then s'\<lparr>promise := Resolved\<rparr> else s')"

text \<open>The call \<open>processPod\<close> awaits (lines 317-323), with the fields of \<open>options\<close>.\<close>

definition podCpuAndMemoryMetrics :: "collaborators \<Rightarrow> options \<Rightarrow> pod \<Rightarrow> metric list logged" where
  "podCpuAndMemoryMetrics co opts p =
     fetchPodMemoryAndCpuUsage co p (accessToken opts) (osApi opts) (agent opts)"

text \<open>
  The fetch of the \<open>i\<close>-th pod in flight settles. \<open>processPod\<close> (lines 316-326) appends
  its metrics to \<open>metrics\<close> when the fetch succeeded and rejects when it failed; the pool
  then frees the slot and, while its own promise is pending, either proceeds or rejects.
\<close>

definition complete :: "collaborators \<Rightarrow> options \<Rightarrow> nat \<Rightarrow> pool \<Rightarrow> pool" where
  "complete co opts i s =
     (if i < length (in_flight s) then
        (let p = in_flight s ! i;
             s1 = s\<lparr>in_flight := take i (in_flight s) @ drop (Suc i) (in_flight s)\<rparr>
         in case podCpuAndMemoryMetrics co opts p of
              (w, Inl e) \<Rightarrow>
                (let s2 = s1\<lparr>warnings := warnings s1 @ w\<rparr> in
                 if promise s2 = Pending then s2\<lparr>promise := Rejected e\<rparr> else s2)
            | (w, Inr ms) \<Rightarrow>
                (let s2 = s1\<lparr>warnings := warnings s1 @ w, metrics := metrics s1 @ ms\<rparr> in
                 if promise s2 = Pending then proceed (concurrency opts) s2 else s2))
      else s)"

text \<open>
  The order in which the fetches in flight settle is not the program's choice. A schedule
  is a list of numbers; each picks, among the fetches then in flight, the one that
  settles next. With nothing in flight no event happens.
\<close>

definition next_event :: "collaborators \<Rightarrow> options \<Rightarrow> nat \<Rightarrow> pool \<Rightarrow> pool" where
  "next_event co opts k s =
     (if in_flight s = [] then s else complete co opts (k mod length (in_flight s)) s)"

definition run :: "collaborators \<Rightarrow> options \<Rightarrow> nat list \<Rightarrow> pool \<Rightarrow> pool" where
  "run co opts sched s = fold (next_event co opts) sched s"

text \<open>\<open>new PromisePool(promiseProducer, options.concurrency)\<close> and \<open>pool.start()\<close>.\<close>

definition start :: "int \<Rightarrow> pod list \<Rightarrow> pool" where
  "start c pods =
     proceed c \<lparr>allPods = pods, in_flight = [], metrics = [], warnings = [],
                producer_done = False, promise = Pending\<rparr>"

section \<open>The collector (\<open>collectMetrics\<close>)\<close>

text \<open>
  Lines 290-305: the pods of every namespace, concatenated, without those in a terminal
  phase. \<open>Promise.all\<close> rejects as soon as one listing rejects.
\<close>

definition terminal :: "pod \<Rightarrow> bool" where
  "terminal p = (status_phase p = ''Failed'' \<or> status_phase p = ''Succeeded'')"

definition list_all_pods :: "collaborators \<Rightarrow> options \<Rightarrow> error + pod list" where
  "list_all_pods co opts =
     (case namespace opts of
        None \<Rightarrow> Inl TypeError
      | Some namespaces \<Rightarrow>
          (case those (map (\<lambda>ns. listPods co (osApi opts) ns (accessToken opts) (agent opts))
                         namespaces) of
             None \<Rightarrow> Inl ListError
           | Some podsPerNamespace \<Rightarrow>
               Inr (filter (\<lambda>p. status_phase p \<noteq> ''Failed'' \<and> status_phase p \<noteq> ''Succeeded'')
                      (concat podsPerNamespace))))"

text \<open>The pool of one collection cycle after the events of a schedule.\<close>

definition collect_pool :: "collaborators \<Rightarrow> options \<Rightarrow> nat list \<Rightarrow> error + pool" where
  "collect_pool co opts sched =
     (case list_all_pods co opts of
        Inl e \<Rightarrow> Inl e
      | Inr pods \<Rightarrow>
          if concurrency opts < 1 then Inl InvalidConcurrency
          else Inr (run co opts sched (start (concurrency opts) pods)))"

text \<open>
  \<open>collectMetrics\<close> awaits \<open>pool.start()\<close> and returns \<open>metrics\<close>. \<open>None\<close>: the promise is
  still pending after the events of the schedule.
\<close>

definition collectMetrics ::
  "collaborators \<Rightarrow> options \<Rightarrow> nat list \<Rightarrow> (error + metric list) option" where
  "collectMetrics co opts sched =
     (case collect_pool co opts sched of
        Inl e \<Rightarrow> Some (Inl e)
      | Inr s \<Rightarrow>
          (case promise s of
             Pending \<Rightarrow> None
           | Rejected e \<Rightarrow> Some (Inl e)
           | Resolved \<Rightarrow> Some (Inr (metrics s))))"

section \<open>The server (\<open>src/server.js\<close>)\<close>

text \<open>
  The options of \<open>createServer\<close> that reach the collector, and the query of a request
  that passed the route's schema: \<open>namespace\<close> is a string or an array of strings,
  \<open>excitement\<close> an integer, both optional, and \<open>additionalProperties: false\<close> leaves no
  other field.
\<close>

record server_options =
  so_concurrency :: "int option"
  so_osApi :: string
  so_accessToken :: string
  so_agent :: "agent option"
  so_defaultNamespace :: "string list option"

datatype namespace_param = One string | Many "string list"

record query =
  q_namespace :: "namespace_param option"
  q_excitement :: "int option"

text \<open>The schema's constraints on the values: \<open>minLength: 1\<close> on every namespace.\<close>

fun querystring_schema :: "query \<Rightarrow> bool" where
  "querystring_schema q =
     (case q_namespace q of
        None \<Rightarrow> True
      | Some (One ns) \<Rightarrow> 1 \<le> length ns
      | Some (Many nss) \<Rightarrow> list_all (\<lambda>ns. 1 \<le> length ns) nss)"

text \<open>The default parameter \<open>concurrency = 10\<close> of \<open>createServer\<close>.\<close>

definition server_concurrency :: "server_options \<Rightarrow> int" where
  "server_concurrency so = (case so_concurrency so of None \<Rightarrow> 10 | Some c \<Rightarrow> c)"

text \<open>
  Lines 64-81: the argument the handler passes to \<open>collectMetrics\<close>. An empty string is
  falsy, an array never is.
\<close>

definition handler_options :: "server_options \<Rightarrow> query \<Rightarrow> options" where
  "handler_options so q =
     \<lparr>namespace =
        (case q_namespace q of
           None \<Rightarrow> so_defaultNamespace so
         | Some (One ns) \<Rightarrow> if ns = [] then so_defaultNamespace so else Some [ns]
         | Some (Many nss) \<Rightarrow> Some nss),
      concurrency = server_concurrency so,
      osApi = so_osApi so,
      accessToken = so_accessToken so,
      agent = so_agent so\<rparr>"

text \<open>
  The handler of \<open>GET /metrics\<close>: the serialized metrics, or the error the framework
  turns into an error response. \<open>serializeMetrics\<close> (\<open>./metrics/serialize\<close>) is a
  parameter.
\<close>

definition metrics_handler ::
  "(metric list \<Rightarrow> string) \<Rightarrow> collaborators \<Rightarrow> server_options \<Rightarrow> query \<Rightarrow> nat list \<Rightarrow>
   (error + string) option" where
  "metrics_handler serializeMetrics co so q sched =
     map_option (map_sum id serializeMetrics) (collectMetrics co (handler_options so q) sched)"

section \<open>The rate metrics, as the specification names them\<close>

text \<open>
  The specification speaks of four conditional rate records, limit or request times
  memory or CPU. The definitions below name, for each of the four, what the matching
  block of \<open>processContainer\<close> uses: the metric name, the help text, the parser, the usage
  string and the declared quantity.
\<close>

datatype resource = Memory | Cpu

datatype bound = Limit | Request

fun rate_name :: "resource \<Rightarrow> bound \<Rightarrow> string" where
  "rate_name Memory Limit = ''osmetrics_pod_memory_usage_limits_rate''"
| "rate_name Memory Request = ''osmetrics_pod_memory_usage_requests_rate''"
| "rate_name Cpu Limit = ''osmetrics_pod_cpu_usage_limits_rate''"
| "rate_name Cpu Request = ''osmetrics_pod_cpu_usage_requests_rate''"

fun rate_help :: "resource \<Rightarrow> string" where
  "rate_help Memory = ''Pod Memory Usage''"
| "rate_help Cpu = ''Pod CPU Usage rate''"



fun declared_quantity :: "resource \<Rightarrow> bound \<Rightarrow> spec_container option \<Rightarrow> string option" where
  "declared_quantity Memory Limit = declared limits memory"
| "declared_quantity Memory Request = declared requests memory"
| "declared_quantity Cpu Limit = declared limits cpu"
| "declared_quantity Cpu Request = declared requests cpu"


text \<open>The two records every container gets.\<close>

definition usage_records ::
  "pod \<Rightarrow> container_metrics \<Rightarrow> jsnum \<Rightarrow> rat \<Rightarrow> rat \<Rightarrow> metric list" where
  "usage_records p container ts parsedMemoryUsage parsedCpuUsage =
     [gauge ''osmetrics_pod_memory_usage_bytes'' ''Pod Memory Usage'' p container
        (Finite parsedMemoryUsage) ts,
      gauge ''osmetrics_pod_cpu_usage_millicores'' ''Pod CPU Usage Rate'' p container
        (Finite parsedCpuUsage) ts]"

section \<open>A small cluster for the concrete instances\<close>

text \<open>
  Five pods behind the API at \<open>https://os\<close>. \<open>web\<close> and \<open>db\<close> answer with usage, \<open>job\<close>
  has completed, the endpoint answers 503 for \<open>api\<close> and a \<open>Status\<close> object for \<open>legacy\<close>.
  \<open>blank\<close> declares an empty string as its memory limit. The parsers are the ones of the
  section on quantity parsers.
\<close>

definition ex_web :: pod where
  "ex_web =
     \<lparr>metadata_name = ''web'', metadata_namespace = ''prod'',
      spec_containers =
        [\<lparr>spec_name = ''app'',
          spec_resources = Some
            \<lparr>limits = Some \<lparr>memory = Some ''256Mi'', cpu = Some ''500m''\<rparr>,
             requests = Some \<lparr>memory = Some ''64Mi'', cpu = None\<rparr>\<rparr>\<rparr>],
      status_phase = ''Running''\<rparr>"

definition ex_db :: pod where
  "ex_db =
     \<lparr>metadata_name = ''db'', metadata_namespace = ''prod'',
      spec_containers =
        [\<lparr>spec_name = ''pg'',
          spec_resources = Some
            \<lparr>limits = Some \<lparr>memory = Some ''256Mi'', cpu = None\<rparr>, requests = None\<rparr>\<rparr>],
      status_phase = ''Running''\<rparr>"

definition ex_job :: pod where
  "ex_job =
     \<lparr>metadata_name = ''job'', metadata_namespace = ''prod'', spec_containers = [],
      status_phase = ''Succeeded''\<rparr>"

definition ex_api :: pod where
  "ex_api =
     \<lparr>metadata_name = ''api'', metadata_namespace = ''staging'', spec_containers = [],
      status_phase = ''Running''\<rparr>"

definition ex_legacy :: pod where
  "ex_legacy =
     \<lparr>metadata_name = ''legacy'', metadata_namespace = ''staging'', spec_containers = [],
      status_phase = ''Pending''\<rparr>"

definition ex_blank :: pod where
  "ex_blank =
     \<lparr>metadata_name = ''blank'', metadata_namespace = ''staging'',
      spec_containers =
        [\<lparr>spec_name = ''app'',
          spec_resources = Some
            \<lparr>limits = Some \<lparr>memory = Some [], cpu = None\<rparr>, requests = None\<rparr>\<rparr>],
      status_phase = ''Running''\<rparr>"

definition ex_app :: container_metrics where
  "ex_app = \<lparr>container_name = ''app'', usage_memory = ''128Mi'', usage_cpu = ''250m''\<rparr>"

definition ex_sidecar :: container_metrics where
  "ex_sidecar = \<lparr>container_name = ''sidecar'', usage_memory = ''1Mi'', usage_cpu = ''0.5''\<rparr>"

definition ex_pg :: container_metrics where
  "ex_pg = \<lparr>container_name = ''pg'', usage_memory = ''512Mi'', usage_cpu = ''2''\<rparr>"

definition ex_web_body :: pod_metrics where
  "ex_web_body =
     \<lparr>body_kind = ''PodMetrics'', body_containers = [ex_app, ex_sidecar],
      body_timestamp = ''2020-01-01T00:00:00.500Z''\<rparr>"

definition ex_db_body :: pod_metrics where
  "ex_db_body =
     \<lparr>body_kind = ''PodMetrics'', body_containers = [ex_pg],
      body_timestamp = ''2020-01-01T00:00:02Z''\<rparr>"

definition ex_status_body :: pod_metrics where
  "ex_status_body =
     \<lparr>body_kind = ''Status'', body_containers = [], body_timestamp = []\<rparr>"

definition ex_fetch :: "request \<Rightarrow> response option" where
  "ex_fetch req =
     (if req_url req = ''https://os/apis/metrics.k8s.io/v1beta1/namespaces/prod/pods/web''
      then Some \<lparr>status = 200, url = req_url req, json = Some (ObjectBody ex_web_body)\<rparr>
      else if req_url req = ''https://os/apis/metrics.k8s.io/v1beta1/namespaces/prod/pods/db''
      then Some \<lparr>status = 200, url = req_url req, json = Some (ObjectBody ex_db_body)\<rparr>
      else if req_url req = ''https://os/apis/metrics.k8s.io/v1beta1/namespaces/staging/pods/api''
      then Some \<lparr>status = 503, url = req_url req, json = None\<rparr>
      else if req_url req
                = ''https://os/apis/metrics.k8s.io/v1beta1/namespaces/staging/pods/legacy''
      then Some \<lparr>status = 200, url = req_url req, json = Some (ObjectBody ex_status_body)\<rparr>
      else if req_url req
                = ''https://os/apis/metrics.k8s.io/v1beta1/namespaces/staging/pods/blank''
      then Some \<lparr>status = 200, url = req_url req,
                  json = Some (ObjectBody (ex_web_body\<lparr>body_containers := [ex_app]\<rparr>))\<rparr>
      else None)"

definition ex_listPods :: "string \<Rightarrow> string \<Rightarrow> string \<Rightarrow> agent option \<Rightarrow> pod list option" where
  "ex_listPods api ns tok ag =
     (if ns = ''prod'' then Some [ex_web, ex_job, ex_db]
      else if ns = ''staging'' then Some [ex_api, ex_legacy]
      else None)"

definition ex_getTime :: "string \<Rightarrow> int option" where
  "ex_getTime date =
     (if date = ''2020-01-01T00:00:00.500Z'' then Some 1577836800500
      else if date = ''2020-01-01T00:00:02Z'' then Some 1577836802000
      else None)"

definition ex_cluster :: collaborators where
  "ex_cluster =
     \<lparr>listPods = ex_listPods, fetch = ex_fetch, parse_memory = parseMemory,
      parse_cpu = parseCpu, date_getTime = ex_getTime\<rparr>"

section \<open>Invariant of the pool\<close>

text \<open>
  What holds of the pool in every state of a cycle over the pods \<open>pods\<close>. First what
  every step keeps, also between the settling of a fetch and the pool's reaction: the
  fetches in flight are at most the concurrency; the producer is done only when no pod
  is pending; every pod of the pool is one of \<open>pods\<close>; until the pool rejects, every
  pod whose fetch fails is still pending or in flight; the error of a rejected pool is
  that of the fetch of one of \<open>pods\<close>; and every metric collected comes from the
  successful fetch of one of \<open>pods\<close>.
\<close>

definition fails :: "collaborators \<Rightarrow> options \<Rightarrow> pod \<Rightarrow> bool" where
  "fails co opts p = (\<exists>e. snd (podCpuAndMemoryMetrics co opts p) = Inl e)"

definition pool_frame :: "collaborators \<Rightarrow> options \<Rightarrow> pod list \<Rightarrow> pool \<Rightarrow> bool" where
  "pool_frame co opts pods s \<longleftrightarrow>
     int (length (in_flight s)) \<le> concurrency opts
   \<and> (producer_done s \<longrightarrow> allPods s = [])
   \<and> set (allPods s) \<union> set (in_flight s) \<subseteq> set pods
   \<and> ((\<forall>e. promise s \<noteq> Rejected e) \<longrightarrow>
        (\<forall>p\<in>set pods. fails co opts p \<longrightarrow> p \<in> set (allPods s) \<union> set (in_flight s)))
   \<and> (\<forall>e. promise s = Rejected e \<longrightarrow>
        (\<exists>p\<in>set pods. snd (podCpuAndMemoryMetrics co opts p) = Inl e))
   \<and> (\<forall>m\<in>set (metrics s). \<exists>p\<in>set pods. \<not> fails co opts p
         \<and> m \<in> set (projr (snd (podCpuAndMemoryMetrics co opts p))))"

text \<open>
  Then what holds between two events: while the promise is pending a fetch is in flight,
  and the pool is full unless the producer is done; a resolved pool has nothing left.
\<close>

definition pool_inv :: "collaborators \<Rightarrow> options \<Rightarrow> pod list \<Rightarrow> pool \<Rightarrow> bool" where
  "pool_inv co opts pods s \<longleftrightarrow>
     pool_frame co opts pods s
   \<and> (promise s = Pending \<longrightarrow>
        in_flight s \<noteq> []
      \<and> (\<not> producer_done s \<longrightarrow> int (length (in_flight s)) = concurrency opts))
   \<and> (promise s = Resolved \<longrightarrow> in_flight s = [] \<and> allPods s = [])"

definition ex_server :: server_options where
  "ex_server =
     \<lparr>so_concurrency = None, so_osApi = ''https://os'', so_accessToken = ''t'',
      so_agent = None, so_defaultNamespace = Some [''prod'']\<rparr>"

definition ex_options :: "string list \<Rightarrow> int \<Rightarrow> options" where
  "ex_options namespaces c =
     \<lparr>namespace = Some namespaces, concurrency = c, osApi = ''https://os'',
      accessToken = ''t'', agent = None\<rparr>"

text \<open>What the fetch for a pod of the small cluster returns and logs.\<close>

definition ex_metrics :: "pod \<Rightarrow> metric list" where
  "ex_metrics p = projr (snd (fetchPodMemoryAndCpuUsage ex_cluster p ''t'' ''https://os'' None))"

definition ex_warnings :: "pod \<Rightarrow> log_entry list" where
  "ex_warnings p = fst (fetchPodMemoryAndCpuUsage ex_cluster p ''t'' ''https://os'' None)"

definition ex_shape_error :: error where
  "ex_shape_error = UpstreamShapeError (NotPodMetrics ''Status'')"

section \<open>Lemmas\<close>

lemma and_then_success:
  "and_then a b = (w, Inr ms) \<longleftrightarrow>
     (\<exists>w1 m1 w2 m2. a = (w1, Inr m1) \<and> b = (w2, Inr m2) \<and> w = w1 @ w2 \<and> ms = m1 @ m2)"
  by (cases "(a, b)" rule: and_then.cases) auto

lemma and_then_failure:
  "snd (and_then a b) = Inl e \<Longrightarrow> snd a = Inl e \<or> snd b = Inl e"
  by (cases "(a, b)" rule: and_then.cases) auto

lemma rate_block_failure:
  "snd (rate_block parse nm hlp p c ts u d) = Inl e \<Longrightarrow> \<exists>raw. e = ParseError raw"
  by (auto simp: rate_block_def Let_def split: if_splits option.splits)

lemma processContainer_failure:
  assumes "snd (processContainer co p ts c) = Inl e"
  shows "\<exists>raw. e = ParseError raw"
proof (cases "parse_memory co (usage_memory c)")
  case None
  with assms show ?thesis by (auto simp: processContainer_def)
next
  case mem: (Some m)
  show ?thesis
  proof (cases "parse_cpu co (usage_cpu c)")
    case None
    with assms mem show ?thesis by (auto simp: processContainer_def)
  next
    case (Some u)
    from assms mem Some show ?thesis
      unfolding processContainer_def Let_def
      by (auto dest!: and_then_failure dest: rate_block_failure)
  qed
qed

lemma forEach_failure:
  "snd (forEach (processContainer co p ts) cs) = Inl e \<Longrightarrow> \<exists>raw. e = ParseError raw"
  by (induction cs) (auto dest!: and_then_failure dest: processContainer_failure)

lemma metrics_of_body_failure:
  "snd (metrics_of_body co p b) = Inl e \<Longrightarrow>
     (\<exists>raw. e = ParseError raw) \<or> (\<exists>v. e = UpstreamShapeError v)"
  by (cases b) (auto split: if_splits dest: forEach_failure)

lemma fetch_after_status:
  assumes "fetch co (usage_request api tok ag p) = Some r"
    and "\<not> (status r < 200 \<or> 299 < status r \<or> status r = 204)"
  shows "fetchPodMemoryAndCpuUsage co p tok api ag
           = (case json r of None \<Rightarrow> ([], Inl FetchError) | Some b \<Rightarrow> metrics_of_body co p b)"
  using assms by (auto simp: fetchPodMemoryAndCpuUsage_def)

lemmas parser_defs = parseMemory_def parseCpu_def parse_number_def is_numeric_char_def
  is_digit_def memory_multipliers_def digits_value_def digit_value_def

lemmas ex_pod_defs = ex_web_def ex_db_def ex_job_def ex_api_def ex_legacy_def ex_blank_def

lemma ex_fetch_api:
  "fetch ex_cluster (usage_request ''https://os'' tok ag ex_api)
     = Some \<lparr>status = 503,
             url = ''https://os/apis/metrics.k8s.io/v1beta1/namespaces/staging/pods/api'',
             json = None\<rparr>"
  by (simp add: ex_cluster_def ex_fetch_def usage_request_def ex_api_def
      encodeURIComponent_def unreserved_def)

lemma ex_fetch_legacy:
  "fetch ex_cluster (usage_request ''https://os'' tok ag ex_legacy)
     = Some \<lparr>status = 200,
             url = ''https://os/apis/metrics.k8s.io/v1beta1/namespaces/staging/pods/legacy'',
             json = Some (ObjectBody ex_status_body)\<rparr>"
  by (simp add: ex_cluster_def ex_fetch_def usage_request_def ex_legacy_def
      encodeURIComponent_def unreserved_def)

lemma ex_fetch_web:
  "fetch ex_cluster (usage_request ''https://os'' tok ag ex_web)
     = Some \<lparr>status = 200,
             url = ''https://os/apis/metrics.k8s.io/v1beta1/namespaces/prod/pods/web'',
             json = Some (ObjectBody ex_web_body)\<rparr>"
  by (simp add: ex_cluster_def ex_fetch_def usage_request_def ex_web_def
      encodeURIComponent_def unreserved_def)

lemma ex_fetch_db:
  "fetch ex_cluster (usage_request ''https://os'' tok ag ex_db)
     = Some \<lparr>status = 200,
             url = ''https://os/apis/metrics.k8s.io/v1beta1/namespaces/prod/pods/db'',
             json = Some (ObjectBody ex_db_body)\<rparr>"
  by (simp add: ex_cluster_def ex_fetch_def usage_request_def ex_db_def
      encodeURIComponent_def unreserved_def)


section \<open>The status check\<close>

text \<open>
  Claim C5. When the metrics endpoint has answered, \<open>fetchPodMemoryAndCpuUsage\<close> fails
  with an UpstreamError exactly when the status is below 200, above 299 or equal to 204,
  and that error carries the status and the URL of the response; for every other status
  the result is that of decoding the body and checking it.
\<close>

theorem status_check:
  assumes "fetch co (usage_request api tok ag p) = Some r"
  shows "((\<exists>w s u. fetchPodMemoryAndCpuUsage co p tok api ag = (w, Inl (UpstreamError s u)))
            \<longleftrightarrow> (status r < 200 \<or> 299 < status r \<or> status r = 204))
       \<and> ((status r < 200 \<or> 299 < status r \<or> status r = 204) \<longrightarrow>
            fetchPodMemoryAndCpuUsage co p tok api ag
              = ([], Inl (UpstreamError (status r) (url r))))
       \<and> (\<not> (status r < 200 \<or> 299 < status r \<or> status r = 204) \<longrightarrow>
            fetchPodMemoryAndCpuUsage co p tok api ag
              = (case json r of None \<Rightarrow> ([], Inl FetchError)
                 | Some b \<Rightarrow> metrics_of_body co p b))"
proof (cases "status r < 200 \<or> 299 < status r \<or> status r = 204")
  case True
  with assms show ?thesis by (auto simp: fetchPodMemoryAndCpuUsage_def)
next
  case False
  note eq = fetch_after_status [OF assms False]
  have "\<not> (\<exists>w s u. fetchPodMemoryAndCpuUsage co p tok api ag = (w, Inl (UpstreamError s u)))"
  proof
    assume "\<exists>w s u. fetchPodMemoryAndCpuUsage co p tok api ag = (w, Inl (UpstreamError s u))"
    then obtain w s u
      where "fetchPodMemoryAndCpuUsage co p tok api ag = (w, Inl (UpstreamError s u))"
      by blast
    then have "snd (fetchPodMemoryAndCpuUsage co p tok api ag) = Inl (UpstreamError s u)"
      by simp
    then have "json r \<noteq> None
        \<and> snd (metrics_of_body co p (the (json r))) = Inl (UpstreamError s u)"
      unfolding eq by (cases "json r") auto
    then show False
      by (auto dest: metrics_of_body_failure)
  qed
  with False eq show ?thesis by simp
qed

text \<open>
  The instance: the endpoint answers 503 for the pod \<open>api\<close>, and 200 with a body for
  the pod \<open>legacy\<close>.
\<close>

theorem status_check_witness:
  "fetchPodMemoryAndCpuUsage ex_cluster ex_api ''t'' ''https://os'' None
     = ([], Inl (UpstreamError 503
          ''https://os/apis/metrics.k8s.io/v1beta1/namespaces/staging/pods/api''))
   \<and> fetchPodMemoryAndCpuUsage ex_cluster ex_legacy ''t'' ''https://os'' None
     = metrics_of_body ex_cluster ex_legacy (ObjectBody ex_status_body)"
  using status_check [OF ex_fetch_api, of "''t''" None]
    status_check [OF ex_fetch_legacy, of "''t''" None]
  by simp

section \<open>The checks on the decoded body\<close>

text \<open>
  Claim C6. When the status check has passed and the body has been decoded,
  \<open>fetchPodMemoryAndCpuUsage\<close> fails with an UpstreamShapeError on a body that is not an
  object (the error names its \<open>typeof\<close>), on an array and on \<open>null\<close>, and, on an object
  whose \<open>kind\<close> is not \<open>PodMetrics\<close>, with an UpstreamShapeError that names the kind. A
  body is turned into metrics only when it is an object of kind \<open>PodMetrics\<close>, and then
  the result is that of the loop over its containers; no other body gives an
  UpstreamShapeError.
\<close>

theorem body_shape_check:
  assumes "fetch co (usage_request api tok ag p) = Some r"
    and "\<not> (status r < 200 \<or> 299 < status r \<or> status r = 204)"
    and "json r = Some b"
  shows "(\<forall>v. b = Primitive v \<longrightarrow>
            fetchPodMemoryAndCpuUsage co p tok api ag
              = ([], Inl (UpstreamShapeError (NotAnObject (typeof v)))))
       \<and> (b = ArrayBody \<longrightarrow>
            fetchPodMemoryAndCpuUsage co p tok api ag = ([], Inl (UpstreamShapeError IsAnArray)))
       \<and> (b = NullBody \<longrightarrow>
            fetchPodMemoryAndCpuUsage co p tok api ag = ([], Inl (UpstreamShapeError IsNull)))
       \<and> (\<forall>pm. b = ObjectBody pm \<and> body_kind pm \<noteq> ''PodMetrics'' \<longrightarrow>
            fetchPodMemoryAndCpuUsage co p tok api ag
              = ([], Inl (UpstreamShapeError (NotPodMetrics (body_kind pm)))))
       \<and> (\<forall>pm. b = ObjectBody pm \<and> body_kind pm = ''PodMetrics'' \<longrightarrow>
            fetchPodMemoryAndCpuUsage co p tok api ag
              = forEach (processContainer co p (dateToTimeStamp co (body_timestamp pm)))
                  (body_containers pm))
       \<and> ((\<exists>w ms. fetchPodMemoryAndCpuUsage co p tok api ag = (w, Inr ms)) \<longrightarrow>
            (\<exists>pm. b = ObjectBody pm \<and> body_kind pm = ''PodMetrics''))
       \<and> ((\<exists>w v. fetchPodMemoryAndCpuUsage co p tok api ag = (w, Inl (UpstreamShapeError v)))
            \<longleftrightarrow> \<not> (\<exists>pm. b = ObjectBody pm \<and> body_kind pm = ''PodMetrics''))"
proof -
  have eq: "fetchPodMemoryAndCpuUsage co p tok api ag = metrics_of_body co p b"
    using fetch_after_status [OF assms(1,2)] assms(3) by simp
  show ?thesis
  proof (cases b)
    case (ObjectBody pm)
    show ?thesis
    proof (cases "body_kind pm = ''PodMetrics''")
      case True
      have "\<not> (\<exists>w v. forEach (processContainer co p (dateToTimeStamp co (body_timestamp pm)))
                  (body_containers pm) = (w, Inl (UpstreamShapeError v)))"
      proof
        assume "\<exists>w v. forEach (processContainer co p (dateToTimeStamp co (body_timestamp pm)))
                  (body_containers pm) = (w, Inl (UpstreamShapeError v))"
        then obtain w v where "snd (forEach (processContainer co p
            (dateToTimeStamp co (body_timestamp pm))) (body_containers pm))
              = Inl (UpstreamShapeError v)"
          by auto
        then show False by (auto dest: forEach_failure)
      qed
      with True ObjectBody show ?thesis unfolding eq by simp
    next
      case False
      with ObjectBody show ?thesis unfolding eq by simp
    qed
  qed (simp_all add: eq)
qed

text \<open>
  The instance: the endpoint answers 200 with a \<open>Status\<close> object for the pod \<open>legacy\<close>.
\<close>

theorem body_shape_check_witness:
  "fetchPodMemoryAndCpuUsage ex_cluster ex_legacy ''t'' ''https://os'' None
     = ([], Inl (UpstreamShapeError (NotPodMetrics ''Status'')))"
proof -
  have "fetchPodMemoryAndCpuUsage ex_cluster ex_legacy ''t'' ''https://os'' None
     = ([], Inl (UpstreamShapeError (NotPodMetrics (body_kind ex_status_body))))"
    using body_shape_check [OF ex_fetch_legacy, of "ObjectBody ex_status_body" "''t''" None]
    by (simp add: ex_status_body_def)
  then show ?thesis by (simp add: ex_status_body_def)
qed

lemma rate_block_success:
  assumes "rate_block parse nm hlp p c ts u d = (w, Inr ms)"
  shows "(\<not> truthy d \<and> w = [] \<and> ms = []) \<or>
         (truthy d \<and> (\<exists>spec. parse (the d) = Some spec
            \<and> ms = [gauge nm hlp p c (js_divide u spec) ts]
            \<and> w = (if gt_one (js_divide u spec)
                    then [rate_warning nm p c (the d) spec u (js_divide u spec)] else [])))"
  using assms by (auto simp: rate_block_def Let_def split: if_splits option.splits)

lemma rate_block_member:
  assumes "rate_block parse nm hlp p c ts u d = (w, Inr ms)" and "m \<in> set ms"
  shows "\<exists>v. m = gauge nm hlp p c v ts"
proof -
  from rate_block_success [OF assms(1)] assms(2)
  obtain spec where "ms = [gauge nm hlp p c (js_divide u spec) ts]"
    by auto
  with assms(2) have "m = gauge nm hlp p c (js_divide u spec) ts" by simp
  then show ?thesis by blast
qed

lemma processContainer_success:
  assumes "processContainer co p ts c = (w, Inr ms)"
  shows "\<exists>mem cpv w1 r1 w2 r2 w3 r3 w4 r4.
           parse_memory co (usage_memory c) = Some mem \<and>
           parse_cpu co (usage_cpu c) = Some cpv \<and>
           rate_block (parse_memory co) (rate_name Memory Limit) (rate_help Memory) p c ts mem
             (declared_quantity Memory Limit (find_spec_container p c)) = (w1, Inr r1) \<and>
           rate_block (parse_memory co) (rate_name Memory Request) (rate_help Memory) p c ts mem
             (declared_quantity Memory Request (find_spec_container p c)) = (w2, Inr r2) \<and>
           rate_block (parse_cpu co) (rate_name Cpu Limit) (rate_help Cpu) p c ts cpv
             (declared_quantity Cpu Limit (find_spec_container p c)) = (w3, Inr r3) \<and>
           rate_block (parse_cpu co) (rate_name Cpu Request) (rate_help Cpu) p c ts cpv
             (declared_quantity Cpu Request (find_spec_container p c)) = (w4, Inr r4) \<and>
           ms = usage_records p c ts mem cpv @ r1 @ r2 @ r3 @ r4 \<and>
           w = w1 @ w2 @ w3 @ w4"
proof -
  from assms obtain mem where mem: "parse_memory co (usage_memory c) = Some mem"
    by (cases "parse_memory co (usage_memory c)") (auto simp: processContainer_def)
  from assms mem obtain cpv where cpv: "parse_cpu co (usage_cpu c) = Some cpv"
    by (cases "parse_cpu co (usage_cpu c)") (auto simp: processContainer_def)
  from assms mem cpv show ?thesis
    unfolding processContainer_def Let_def
    by (simp add: and_then_success usage_records_def) blast
qed


lemma processContainer_gauges:
  assumes "processContainer co p ts c = (w, Inr ms)" and "m \<in> set ms"
  shows "\<exists>nm hlp v. m = gauge nm hlp p c v ts"
proof -
  from processContainer_success [OF assms(1)] obtain mem cpv w1 r1 w2 r2 w3 r3 w4 r4 where
    b1: "rate_block (parse_memory co) (rate_name Memory Limit) (rate_help Memory) p c ts mem
       (declared_quantity Memory Limit (find_spec_container p c)) = (w1, Inr r1)"
    and b2: "rate_block (parse_memory co) (rate_name Memory Request) (rate_help Memory) p c ts mem
       (declared_quantity Memory Request (find_spec_container p c)) = (w2, Inr r2)"
    and b3: "rate_block (parse_cpu co) (rate_name Cpu Limit) (rate_help Cpu) p c ts cpv
       (declared_quantity Cpu Limit (find_spec_container p c)) = (w3, Inr r3)"
    and b4: "rate_block (parse_cpu co) (rate_name Cpu Request) (rate_help Cpu) p c ts cpv
       (declared_quantity Cpu Request (find_spec_container p c)) = (w4, Inr r4)"
    and ms: "ms = usage_records p c ts mem cpv @ r1 @ r2 @ r3 @ r4"
    by blast
  from assms(2) ms consider "m \<in> set (usage_records p c ts mem cpv)"
    | "m \<in> set r1" | "m \<in> set r2" | "m \<in> set r3" | "m \<in> set r4"
    by auto
  then show ?thesis
  proof cases
    case 1
    then show ?thesis by (auto simp: usage_records_def)
  next
    case 2
    with rate_block_member [OF b1] show ?thesis by blast
  next
    case 3
    with rate_block_member [OF b2] show ?thesis by blast
  next
    case 4
    with rate_block_member [OF b3] show ?thesis by blast
  next
    case 5
    with rate_block_member [OF b4] show ?thesis by blast
  qed
qed

lemma forEach_success:
  assumes "forEach f cs = (w, Inr ms)"
  shows "(\<forall>c\<in>set cs. \<exists>wc mc. f c = (wc, Inr mc))
       \<and> w = concat (map (\<lambda>c. fst (f c)) cs)
       \<and> ms = concat (map (\<lambda>c. projr (snd (f c))) cs)"
  using assms
proof (induction cs arbitrary: w ms)
  case Nil
  then show ?case by simp
next
  case (Cons c cs)
  from Cons.prems obtain w1 m1 w2 m2 where
    "f c = (w1, Inr m1)" "forEach f cs = (w2, Inr m2)" "w = w1 @ w2" "ms = m1 @ m2"
    by (auto simp: and_then_success)
  with Cons.IH [of w2 m2] show ?case by simp
qed


lemma fetch_success:
  assumes "fetchPodMemoryAndCpuUsage co p tok api ag = (w, Inr ms)"
  shows "\<exists>r b. fetch co (usage_request api tok ag p) = Some r
           \<and> \<not> (status r < 200 \<or> 299 < status r \<or> status r = 204)
           \<and> json r = Some (ObjectBody b) \<and> body_kind b = ''PodMetrics''
           \<and> forEach (processContainer co p (dateToTimeStamp co (body_timestamp b)))
                (body_containers b) = (w, Inr ms)"
proof -
  from assms obtain r where r: "fetch co (usage_request api tok ag p) = Some r"
    by (cases "fetch co (usage_request api tok ag p)")
       (auto simp: fetchPodMemoryAndCpuUsage_def)
  with assms have ok: "\<not> (status r < 200 \<or> 299 < status r \<or> status r = 204)"
    by (auto simp: fetchPodMemoryAndCpuUsage_def split: if_splits)
  note eq = fetch_after_status [OF r ok]
  from assms eq obtain bd where bd: "json r = Some bd"
    by (cases "json r") auto
  with assms eq have m: "metrics_of_body co p bd = (w, Inr ms)" by simp
  then obtain b where b: "bd = ObjectBody b" by (cases bd) auto
  with m have "body_kind b = ''PodMetrics''"
    and "forEach (processContainer co p (dateToTimeStamp co (body_timestamp b)))
           (body_containers b) = (w, Inr ms)"
    by (auto split: if_splits)
  with r ok bd b show ?thesis by blast
qed

lemma ex_web_result:
  "fetchPodMemoryAndCpuUsage ex_cluster ex_web tok ''https://os'' ag
     = ([rate_warning (rate_name Memory Request) ex_web ex_app ''64Mi'' 67108864 134217728
           (Finite 2)],
        Inr (usage_records ex_web ex_app (Finite (3155673601 / 2)) 134217728 250
             @ [gauge (rate_name Memory Limit) (rate_help Memory) ex_web ex_app
                  (Finite (1 / 2)) (Finite (3155673601 / 2)),
                gauge (rate_name Memory Request) (rate_help Memory) ex_web ex_app
                  (Finite 2) (Finite (3155673601 / 2)),
                gauge (rate_name Cpu Limit) (rate_help Cpu) ex_web ex_app
                  (Finite (1 / 2)) (Finite (3155673601 / 2))]
             @ usage_records ex_web ex_sidecar (Finite (3155673601 / 2)) 1048576 500))"
proof -
  have ts: "dateToTimeStamp ex_cluster (body_timestamp ex_web_body) = Finite (3155673601 / 2)"
    by (simp add: dateToTimeStamp_def ex_cluster_def ex_getTime_def ex_web_body_def)
  have app: "processContainer ex_cluster ex_web ts ex_app
     = ([rate_warning (rate_name Memory Request) ex_web ex_app ''64Mi'' 67108864 134217728
           (Finite 2)],
        Inr (usage_records ex_web ex_app ts 134217728 250
             @ [gauge (rate_name Memory Limit) (rate_help Memory) ex_web ex_app (Finite (1 / 2)) ts,
                gauge (rate_name Memory Request) (rate_help Memory) ex_web ex_app (Finite 2) ts,
                gauge (rate_name Cpu Limit) (rate_help Cpu) ex_web ex_app (Finite (1 / 2)) ts]))"
    for ts
    by (simp add: processContainer_def rate_block_def declared_def find_spec_container_def
        ex_web_def ex_app_def ex_cluster_def parser_defs js_divide_def usage_records_def
        Let_def)
  have sidecar: "processContainer ex_cluster ex_web ts ex_sidecar
     = ([], Inr (usage_records ex_web ex_sidecar ts 1048576 500))" for ts
    by (simp add: processContainer_def rate_block_def declared_def find_spec_container_def
        ex_web_def ex_sidecar_def ex_cluster_def parser_defs js_divide_def usage_records_def
        Let_def)
  have "fetchPodMemoryAndCpuUsage ex_cluster ex_web tok ''https://os'' ag
      = forEach (processContainer ex_cluster ex_web
          (dateToTimeStamp ex_cluster (body_timestamp ex_web_body))) (body_containers ex_web_body)"
    by (simp add: fetch_after_status [OF ex_fetch_web] ex_web_body_def)
  also have "\<dots> = forEach (processContainer ex_cluster ex_web (Finite (3155673601 / 2)))
      [ex_app, ex_sidecar]"
    by (simp only: ts) (simp add: ex_web_body_def)
  finally show ?thesis
    by (simp add: app sidecar)
qed

section \<open>Timestamp, labels and type of the records\<close>

text \<open>
  Claim C9. Every record that one call of \<open>fetchPodMemoryAndCpuUsage\<close> returns carries
  the same timestamp, the response's \<open>timestamp\<close> converted by \<open>dateToTimeStamp\<close> (the
  milliseconds of the date divided by 1000, NaN for an invalid date); its type is
  \<open>gauge\<close>; and its labels are \<open>pod\<close>, \<open>container\<close> and \<open>namespace\<close>, in this order and
  no others, with the pod's name, the name of a container of the response and the pod's
  namespace as values.
\<close>

theorem record_stamp_labels:
  assumes "fetchPodMemoryAndCpuUsage co p tok api ag = (w, Inr ms)"
  shows "\<exists>r b. fetch co (usage_request api tok ag p) = Some r \<and> json r = Some (ObjectBody b)
     \<and> (\<forall>m\<in>set ms.
           m_timestamp m = dateToTimeStamp co (body_timestamp b)
         \<and> m_type m = ''gauge''
         \<and> map fst (m_labels m) = [''pod'', ''container'', ''namespace'']
         \<and> (\<exists>c\<in>set (body_containers b).
               m_labels m = [(''pod'', metadata_name p), (''container'', container_name c),
                             (''namespace'', metadata_namespace p)]))
     \<and> dateToTimeStamp co (body_timestamp b)
         = (case date_getTime co (body_timestamp b) of
              None \<Rightarrow> NaN | Some t \<Rightarrow> Finite (rat_of_int t / 1000))"
proof -
  from fetch_success [OF assms] obtain r b where
    r: "fetch co (usage_request api tok ag p) = Some r"
    and b: "json r = Some (ObjectBody b)"
    and loop: "forEach (processContainer co p (dateToTimeStamp co (body_timestamp b)))
                (body_containers b) = (w, Inr ms)"
    by blast
  let ?ts = "dateToTimeStamp co (body_timestamp b)"
  note parts = forEach_success [OF loop]
  have "\<exists>c\<in>set (body_containers b). \<exists>nm hlp v. m = gauge nm hlp p c v ?ts"
    if "m \<in> set ms" for m
  proof -
    from that parts obtain c where c: "c \<in> set (body_containers b)"
      and m: "m \<in> set (projr (snd (processContainer co p ?ts c)))"
      by auto
    from parts c obtain wc mc where "processContainer co p ?ts c = (wc, Inr mc)"
      by blast
    with m processContainer_gauges [of co p ?ts c wc mc m] c show ?thesis
      by auto
  qed
  then have "\<forall>m\<in>set ms.
           m_timestamp m = ?ts \<and> m_type m = ''gauge''
         \<and> map fst (m_labels m) = [''pod'', ''container'', ''namespace'']
         \<and> (\<exists>c\<in>set (body_containers b).
               m_labels m = [(''pod'', metadata_name p), (''container'', container_name c),
                             (''namespace'', metadata_namespace p)])"
    by (fastforce simp: gauge_def metric_labels_def)
  moreover have "?ts = (case date_getTime co (body_timestamp b) of
              None \<Rightarrow> NaN | Some t \<Rightarrow> Finite (rat_of_int t / 1000))"
    by (simp add: dateToTimeStamp_def)
  ultimately show ?thesis using r b by blast
qed

text \<open>
  The instance: the seven records of the pod \<open>web\<close>, whose response is stamped
  \<open>2020-01-01T00:00:00.500Z\<close>, that is 1577836800500 milliseconds.
\<close>

theorem record_stamp_labels_witness:
  "length (projr (snd (fetchPodMemoryAndCpuUsage ex_cluster ex_web ''t'' ''https://os'' None))) = 7
   \<and> list_all (\<lambda>m. m_timestamp m = Finite (1577836800500 / 1000) \<and> m_type m = ''gauge''
                 \<and> map fst (m_labels m) = [''pod'', ''container'', ''namespace''])
       (projr (snd (fetchPodMemoryAndCpuUsage ex_cluster ex_web ''t'' ''https://os'' None)))"
proof -
  from record_stamp_labels [OF ex_web_result [of "''t''" None]] obtain r b where
    "fetch ex_cluster (usage_request ''https://os'' ''t'' None ex_web) = Some r"
    "json r = Some (ObjectBody b)"
    and all: "\<forall>m\<in>set (projr (snd (fetchPodMemoryAndCpuUsage ex_cluster ex_web ''t''
                 ''https://os'' None))).
           m_timestamp m = dateToTimeStamp ex_cluster (body_timestamp b)
         \<and> m_type m = ''gauge''
         \<and> map fst (m_labels m) = [''pod'', ''container'', ''namespace'']"
    unfolding ex_web_result by auto
  then have "b = ex_web_body" by (auto simp: ex_fetch_web)
  then have "dateToTimeStamp ex_cluster (body_timestamp b) = Finite (1577836800500 / 1000)"
    by (simp add: dateToTimeStamp_def ex_cluster_def ex_getTime_def ex_web_body_def)
  with all have "list_all (\<lambda>m. m_timestamp m = Finite (1577836800500 / 1000)
                 \<and> m_type m = ''gauge''
                 \<and> map fst (m_labels m) = [''pod'', ''container'', ''namespace''])
       (projr (snd (fetchPodMemoryAndCpuUsage ex_cluster ex_web ''t'' ''https://os'' None)))"
    unfolding list_all_iff by simp
  moreover have "length (projr (snd (fetchPodMemoryAndCpuUsage ex_cluster ex_web ''t''
      ''https://os'' None))) = 7"
    by (simp add: ex_web_result usage_records_def)
  ultimately show ?thesis by simp
qed





lemma ex_db_result:
  "fetchPodMemoryAndCpuUsage ex_cluster ex_db tok ''https://os'' ag
     = ([rate_warning (rate_name Memory Limit) ex_db ex_pg ''256Mi'' (2 ^ 28) (2 ^ 29) (Finite 2)],
        Inr (usage_records ex_db ex_pg (Finite 1577836802) (2 ^ 29) 2000
             @ [gauge (rate_name Memory Limit) (rate_help Memory) ex_db ex_pg
                  (Finite 2) (Finite 1577836802)]))"
proof -
  have ts: "dateToTimeStamp ex_cluster (body_timestamp ex_db_body) = Finite 1577836802"
    by (simp add: dateToTimeStamp_def ex_cluster_def ex_getTime_def ex_db_body_def)
  have pg: "processContainer ex_cluster ex_db ts ex_pg
     = ([rate_warning (rate_name Memory Limit) ex_db ex_pg ''256Mi'' (2 ^ 28) (2 ^ 29) (Finite 2)],
        Inr (usage_records ex_db ex_pg ts (2 ^ 29) 2000
             @ [gauge (rate_name Memory Limit) (rate_help Memory) ex_db ex_pg (Finite 2) ts]))"
    for ts
    by (simp add: processContainer_def rate_block_def declared_def find_spec_container_def
        ex_db_def ex_pg_def ex_cluster_def parser_defs js_divide_def usage_records_def
        Let_def)
  have "fetchPodMemoryAndCpuUsage ex_cluster ex_db tok ''https://os'' ag
      = forEach (processContainer ex_cluster ex_db
          (dateToTimeStamp ex_cluster (body_timestamp ex_db_body))) (body_containers ex_db_body)"
    by (simp add: fetch_after_status [OF ex_fetch_db] ex_db_body_def)
  also have "\<dots> = forEach (processContainer ex_cluster ex_db (Finite 1577836802)) [ex_pg]"
    by (simp only: ts) (simp add: ex_db_body_def)
  finally show ?thesis
    by (simp add: pg)
qed





section \<open>The records of one container\<close>





section \<open>The value of a rate record and its warning\<close>





section \<open>The quantity parsers\<close>



declare dispatch.simps [simp del]

lemma dispatch_unfold:
  "dispatch c s =
     (if int (length (in_flight s)) < c then
        (if allPods s = [] then s\<lparr>producer_done := True\<rparr>
         else dispatch c (s\<lparr>allPods := butlast (allPods s),
                             in_flight := in_flight s @ [last (allPods s)]\<rparr>))
      else s)"
  by (subst dispatch.simps) (simp add: promiseProducer_def)

lemma dispatch_props:
  assumes "int (length (in_flight s)) \<le> c" and "producer_done s \<longrightarrow> allPods s = []"
  shows "int (length (in_flight (dispatch c s))) \<le> c
       \<and> (producer_done (dispatch c s) \<longrightarrow> allPods (dispatch c s) = [])
       \<and> (\<not> producer_done (dispatch c s) \<longrightarrow> int (length (in_flight (dispatch c s))) = c)
       \<and> promise (dispatch c s) = promise s
       \<and> metrics (dispatch c s) = metrics s
       \<and> warnings (dispatch c s) = warnings s
       \<and> set (allPods (dispatch c s)) \<union> set (in_flight (dispatch c s))
           = set (allPods s) \<union> set (in_flight s)
       \<and> length (allPods (dispatch c s)) + length (in_flight (dispatch c s))
           = length (allPods s) + length (in_flight s)"
  using assms
proof (induction "length (allPods s)" arbitrary: s)
  case 0
  then have eq: "dispatch c s
      = (if int (length (in_flight s)) < c then s\<lparr>producer_done := True\<rparr> else s)"
    by (subst dispatch_unfold) simp
  from 0 show ?case
    unfolding eq by (cases "int (length (in_flight s)) < c") simp_all
next
  case (Suc n)
  show ?case
  proof (cases "int (length (in_flight s)) < c")
    case False
    then have eq: "dispatch c s = s"
      by (subst dispatch_unfold) simp
    from False Suc.prems show ?thesis
      unfolding eq by simp
  next
    case True
    let ?s = "s\<lparr>allPods := butlast (allPods s),
                  in_flight := in_flight s @ [last (allPods s)]\<rparr>"
    from Suc.hyps have ne: "allPods s \<noteq> []" by auto
    with True have eq: "dispatch c s = dispatch c ?s"
      by (subst dispatch_unfold) simp
    from Suc.hyps have n: "n = length (allPods ?s)" by simp
    from True have le: "int (length (in_flight ?s)) \<le> c" by simp
    from Suc.prems ne have pd: "producer_done ?s \<longrightarrow> allPods ?s = []" by simp
    have sets: "set (allPods ?s) \<union> set (in_flight ?s) = set (allPods s) \<union> set (in_flight s)"
    proof -
      from ne have "allPods s = butlast (allPods s) @ [last (allPods s)]" by simp
      then have "set (allPods s) = set (butlast (allPods s)) \<union> {last (allPods s)}"
        by (metis list.simps(15) set_append empty_set)
      then show ?thesis by auto
    qed
    from ne have len: "length (allPods ?s) + length (in_flight ?s)
        = length (allPods s) + length (in_flight s)"
      by (cases "allPods s" rule: rev_cases) auto
    from Suc.hyps(1) [OF n le pd] sets len show ?thesis
      unfolding eq by simp
  qed
qed

lemma proceed_unfold:
  "proceed c s =
     (if producer_done (if producer_done s then s else dispatch c s)
         \<and> in_flight (if producer_done s then s else dispatch c s) = []
      then (if producer_done s then s else dispatch c s)\<lparr>promise := Resolved\<rparr>
      else (if producer_done s then s else dispatch c s))"
  by (simp add: proceed_def Let_def)

lemma proceed_props:
  assumes "int (length (in_flight s)) \<le> c" and "producer_done s \<longrightarrow> allPods s = []"
  shows "int (length (in_flight (proceed c s))) \<le> c"
    and "producer_done (proceed c s) \<longrightarrow> allPods (proceed c s) = []"
    and "promise (proceed c s) = promise s \<or> promise (proceed c s) = Resolved"
    and "promise (proceed c s) = Resolved \<longrightarrow> promise s = Resolved
           \<or> (in_flight (proceed c s) = [] \<and> allPods (proceed c s) = [])"
    and "1 \<le> c \<longrightarrow> promise (proceed c s) = Pending \<longrightarrow>
           in_flight (proceed c s) \<noteq> []
         \<and> (\<not> producer_done (proceed c s) \<longrightarrow> int (length (in_flight (proceed c s))) = c)"
    and "metrics (proceed c s) = metrics s"
    and "warnings (proceed c s) = warnings s"
    and "set (allPods (proceed c s)) \<union> set (in_flight (proceed c s))
           = set (allPods s) \<union> set (in_flight s)"
    and "length (allPods (proceed c s)) + length (in_flight (proceed c s))
           = length (allPods s) + length (in_flight s)"
proof -
  define t where "t = (if producer_done s then s else dispatch c s)"
  have t: "int (length (in_flight t)) \<le> c"
    "producer_done t \<longrightarrow> allPods t = []"
    "\<not> producer_done t \<longrightarrow> int (length (in_flight t)) = c"
    "promise t = promise s" "metrics t = metrics s" "warnings t = warnings s"
    "set (allPods t) \<union> set (in_flight t) = set (allPods s) \<union> set (in_flight s)"
    "length (allPods t) + length (in_flight t) = length (allPods s) + length (in_flight s)"
    using dispatch_props [OF assms] assms unfolding t_def
    by (cases "producer_done s"; simp)+
  have p: "proceed c s = (if producer_done t \<and> in_flight t = [] then t\<lparr>promise := Resolved\<rparr>
                          else t)"
    unfolding t_def by (rule proceed_unfold)
  show "int (length (in_flight (proceed c s))) \<le> c"
    unfolding p using t(1) by simp
  show "producer_done (proceed c s) \<longrightarrow> allPods (proceed c s) = []"
    unfolding p using t(2) by simp
  show "promise (proceed c s) = promise s \<or> promise (proceed c s) = Resolved"
    unfolding p using t(4) by simp
  show "promise (proceed c s) = Resolved \<longrightarrow> promise s = Resolved
           \<or> (in_flight (proceed c s) = [] \<and> allPods (proceed c s) = [])"
    unfolding p using t(2,4) by simp
  show "1 \<le> c \<longrightarrow> promise (proceed c s) = Pending \<longrightarrow>
           in_flight (proceed c s) \<noteq> []
         \<and> (\<not> producer_done (proceed c s) \<longrightarrow> int (length (in_flight (proceed c s))) = c)"
    unfolding p using t(3) by auto
  show "metrics (proceed c s) = metrics s"
    unfolding p using t(5) by simp
  show "warnings (proceed c s) = warnings s"
    unfolding p using t(6) by simp
  show "set (allPods (proceed c s)) \<union> set (in_flight (proceed c s))
           = set (allPods s) \<union> set (in_flight s)"
    unfolding p using t(7) by auto
  show "length (allPods (proceed c s)) + length (in_flight (proceed c s))
           = length (allPods s) + length (in_flight s)"
    unfolding p using t(8) by auto
qed

lemma pool_inv_proceed:
  assumes c: "1 \<le> concurrency opts"
    and frame: "pool_frame co opts pods s"
    and pending: "promise s = Pending"
  shows "pool_inv co opts pods (proceed (concurrency opts) s)"
proof -
  let ?c = "concurrency opts" and ?s = "proceed (concurrency opts) s"
  from frame have le: "int (length (in_flight s)) \<le> ?c"
    and pd: "producer_done s \<longrightarrow> allPods s = []"
    by (simp_all add: pool_frame_def)
  note pp = proceed_props [OF le pd]
  from pp(3) pending have pr: "\<forall>e. promise ?s \<noteq> Rejected e" by auto
  from frame pending have bad: "\<forall>p\<in>set pods. fails co opts p \<longrightarrow>
      p \<in> set (allPods s) \<union> set (in_flight s)"
    by (simp add: pool_frame_def)
  from frame have sub: "set (allPods s) \<union> set (in_flight s) \<subseteq> set pods"
    and met: "\<forall>m\<in>set (metrics s). \<exists>p\<in>set pods. \<not> fails co opts p
         \<and> m \<in> set (projr (snd (podCpuAndMemoryMetrics co opts p)))"
    by (simp_all add: pool_frame_def)
  have "pool_frame co opts pods ?s"
    unfolding pool_frame_def pp(6) pp(8)
    using pp(1,2) sub bad met pr by simp
  moreover from pp(5) c have "promise ?s = Pending \<longrightarrow>
        in_flight ?s \<noteq> [] \<and> (\<not> producer_done ?s \<longrightarrow> int (length (in_flight ?s)) = ?c)"
    by simp
  moreover from pp(4) pending have "promise ?s = Resolved \<longrightarrow>
      in_flight ?s = [] \<and> allPods ?s = []"
    by simp
  ultimately show ?thesis
    unfolding pool_inv_def by simp
qed

lemma pool_inv_start:
  assumes "1 \<le> concurrency opts"
  shows "pool_inv co opts pods (start (concurrency opts) pods)"
  unfolding start_def
  using assms by (intro pool_inv_proceed) (simp_all add: pool_frame_def)

lemma in_flight_remove:
  assumes "i < length xs"
  shows "set (take i xs @ drop (Suc i) xs) \<subseteq> set xs"
    and "set xs \<subseteq> insert (xs ! i) (set (take i xs @ drop (Suc i) xs))"
    and "length (take i xs @ drop (Suc i) xs) + 1 = length xs"
    and "xs ! i \<in> set xs"
proof -
  from assms have xs: "xs = take i xs @ xs ! i # drop (Suc i) xs"
    by (rule id_take_nth_drop)
  show "set (take i xs @ drop (Suc i) xs) \<subseteq> set xs"
    by (auto dest: in_set_takeD in_set_dropD)
  show "set xs \<subseteq> insert (xs ! i) (set (take i xs @ drop (Suc i) xs))"
    by (subst (1) xs) auto
  show "length (take i xs @ drop (Suc i) xs) + 1 = length xs"
    using assms by simp
  show "xs ! i \<in> set xs"
    using assms by simp
qed

lemma complete_failure:
  assumes "i < length (in_flight s)"
    and "podCpuAndMemoryMetrics co opts (in_flight s ! i) = (w, Inl e)"
  shows "complete co opts i s
    = s\<lparr>in_flight := take i (in_flight s) @ drop (Suc i) (in_flight s),
         warnings := warnings s @ w,
         promise := (if promise s = Pending then Rejected e else promise s)\<rparr>"
  using assms by (simp add: complete_def Let_def)

lemma complete_success:
  assumes "i < length (in_flight s)"
    and "podCpuAndMemoryMetrics co opts (in_flight s ! i) = (w, Inr ms)"
  shows "complete co opts i s
    = (if promise s = Pending
       then proceed (concurrency opts)
              (s\<lparr>in_flight := take i (in_flight s) @ drop (Suc i) (in_flight s),
                 warnings := warnings s @ w, metrics := metrics s @ ms\<rparr>)
       else s\<lparr>in_flight := take i (in_flight s) @ drop (Suc i) (in_flight s),
              warnings := warnings s @ w, metrics := metrics s @ ms\<rparr>)"
  using assms by (simp add: complete_def Let_def)

lemma pool_frame_success:
  assumes frame: "pool_frame co opts pods s"
    and i: "i < length (in_flight s)"
    and ok: "podCpuAndMemoryMetrics co opts (in_flight s ! i) = (w, Inr ms)"
  shows "pool_frame co opts pods
           (s\<lparr>in_flight := take i (in_flight s) @ drop (Suc i) (in_flight s),
              warnings := warnings s @ w, metrics := metrics s @ ms\<rparr>)"
proof -
  let ?p = "in_flight s ! i"
  let ?rest = "take i (in_flight s) @ drop (Suc i) (in_flight s)"
  note rm = in_flight_remove [OF i]
  from ok have nf: "\<not> fails co opts ?p" by (simp add: fails_def)
  from frame have le: "int (length (in_flight s)) \<le> concurrency opts"
    and pd: "producer_done s \<longrightarrow> allPods s = []"
    and sub: "set (allPods s) \<union> set (in_flight s) \<subseteq> set pods"
    and bad: "(\<forall>e. promise s \<noteq> Rejected e) \<longrightarrow>
        (\<forall>p\<in>set pods. fails co opts p \<longrightarrow> p \<in> set (allPods s) \<union> set (in_flight s))"
    and rej: "\<forall>e. promise s = Rejected e \<longrightarrow>
        (\<exists>p\<in>set pods. snd (podCpuAndMemoryMetrics co opts p) = Inl e)"
    and met: "\<forall>m\<in>set (metrics s). \<exists>p\<in>set pods. \<not> fails co opts p
         \<and> m \<in> set (projr (snd (podCpuAndMemoryMetrics co opts p)))"
    by (simp_all add: pool_frame_def)
  from rm(4) sub have pin: "?p \<in> set pods" by auto
  from le rm(3) have le': "int (length ?rest) \<le> concurrency opts" by linarith
  from sub rm(1) have sub': "set (allPods s) \<union> set ?rest \<subseteq> set pods" by blast
  have bad': "(\<forall>e. promise s \<noteq> Rejected e) \<longrightarrow>
        (\<forall>p\<in>set pods. fails co opts p \<longrightarrow> p \<in> set (allPods s) \<union> set ?rest)"
  proof (intro impI ballI)
    fix q assume "\<forall>e. promise s \<noteq> Rejected e" "q \<in> set pods" "fails co opts q"
    with bad have "q \<in> set (allPods s) \<union> set (in_flight s)" by blast
    moreover from \<open>fails co opts q\<close> nf have "q \<noteq> ?p" by auto
    ultimately show "q \<in> set (allPods s) \<union> set ?rest" using rm(2) by blast
  qed
  have met': "\<forall>m\<in>set (metrics s @ ms). \<exists>p\<in>set pods. \<not> fails co opts p
         \<and> m \<in> set (projr (snd (podCpuAndMemoryMetrics co opts p)))"
  proof
    fix m assume "m \<in> set (metrics s @ ms)"
    then consider "m \<in> set (metrics s)" | "m \<in> set ms" by auto
    then show "\<exists>p\<in>set pods. \<not> fails co opts p
         \<and> m \<in> set (projr (snd (podCpuAndMemoryMetrics co opts p)))"
    proof cases
      case 1
      with met show ?thesis by blast
    next
      case 2
      with ok nf pin show ?thesis by (intro bexI [of _ ?p]) simp_all
    qed
  qed
  from le' pd sub' bad' rej met' show ?thesis
    unfolding pool_frame_def by simp
qed

lemma pool_inv_complete:
  assumes c: "1 \<le> concurrency opts"
    and inv: "pool_inv co opts pods s"
    and i: "i < length (in_flight s)"
  shows "pool_inv co opts pods (complete co opts i s)"
proof -
  let ?p = "in_flight s ! i"
  let ?rest = "take i (in_flight s) @ drop (Suc i) (in_flight s)"
  note rm = in_flight_remove [OF i]
  from inv have frame: "pool_frame co opts pods s" by (simp add: pool_inv_def)
  from inv i have nres: "promise s \<noteq> Resolved" by (auto simp: pool_inv_def)
  obtain w r where res: "podCpuAndMemoryMetrics co opts ?p = (w, r)"
    by (cases "podCpuAndMemoryMetrics co opts ?p")
  show ?thesis
  proof (cases r)
    case (Inl e)
    let ?s = "s\<lparr>in_flight := ?rest, warnings := warnings s @ w,
                 promise := (if promise s = Pending then Rejected e else promise s)\<rparr>"
    from frame have le: "int (length (in_flight s)) \<le> concurrency opts"
      and pd: "producer_done s \<longrightarrow> allPods s = []"
      and sub: "set (allPods s) \<union> set (in_flight s) \<subseteq> set pods"
      and rej: "\<forall>e. promise s = Rejected e \<longrightarrow>
          (\<exists>p\<in>set pods. snd (podCpuAndMemoryMetrics co opts p) = Inl e)"
      and met: "\<forall>m\<in>set (metrics s). \<exists>p\<in>set pods. \<not> fails co opts p
           \<and> m \<in> set (projr (snd (podCpuAndMemoryMetrics co opts p)))"
      by (simp_all add: pool_frame_def)
    from rm(4) sub have pin: "?p \<in> set pods" by auto
    from le rm(3) have le': "int (length ?rest) \<le> concurrency opts" by linarith
    from sub rm(1) have sub': "set (allPods s) \<union> set ?rest \<subseteq> set pods" by blast
    define e0 where "e0 = (case promise s of Rejected e1 \<Rightarrow> e1 | _ \<Rightarrow> e)"
    from nres have pr: "promise ?s = Rejected e0"
      by (cases "promise s") (simp_all add: e0_def)
    have e0: "\<exists>p\<in>set pods. snd (podCpuAndMemoryMetrics co opts p) = Inl e0"
    proof (cases "promise s")
      case Pending
      then have "e0 = e" by (simp add: e0_def)
      moreover from res Inl have "snd (podCpuAndMemoryMetrics co opts ?p) = Inl e" by simp
      ultimately show ?thesis using pin by blast
    next
      case Resolved
      with nres show ?thesis by simp
    next
      case (Rejected e1)
      then have "e0 = e1" by (simp add: e0_def)
      with rej Rejected show ?thesis by simp
    qed
    have "pool_frame co opts pods ?s"
      unfolding pool_frame_def using le' pd sub' pr e0 met by simp
    with pr have "pool_inv co opts pods ?s"
      unfolding pool_inv_def by simp
    with complete_failure [OF i, of co opts w e] res Inl show ?thesis by simp
  next
    case (Inr ms)
    let ?s = "s\<lparr>in_flight := ?rest, warnings := warnings s @ w, metrics := metrics s @ ms\<rparr>"
    from res Inr have ok: "podCpuAndMemoryMetrics co opts ?p = (w, Inr ms)" by simp
    note frame' = pool_frame_success [OF frame i ok]
    show ?thesis
    proof (cases "promise s = Pending")
      case True
      then have "promise ?s = Pending" by simp
      from pool_inv_proceed [OF c frame' this] complete_success [OF i ok] True
      show ?thesis by simp
    next
      case False
      with nres have "promise ?s \<noteq> Pending" "promise ?s \<noteq> Resolved" by simp_all
      with frame' have "pool_inv co opts pods ?s"
        unfolding pool_inv_def by simp
      with complete_success [OF i ok] False show ?thesis by simp
    qed
  qed
qed

lemma pool_inv_next_event:
  assumes "1 \<le> concurrency opts" and "pool_inv co opts pods s"
  shows "pool_inv co opts pods (next_event co opts k s)"
proof (cases "in_flight s = []")
  case True
  with assms show ?thesis by (simp add: next_event_def)
next
  case False
  then have "k mod length (in_flight s) < length (in_flight s)" by simp
  from pool_inv_complete [OF assms this] False show ?thesis
    by (simp add: next_event_def)
qed

lemma run_Cons: "run co opts (k # ks) s = run co opts ks (next_event co opts k s)"
  by (simp add: run_def)

lemma run_Nil: "run co opts [] s = s"
  by (simp add: run_def)

lemma run_append: "run co opts (ks @ ks') s = run co opts ks' (run co opts ks s)"
  by (simp add: run_def)

lemma pool_inv_run:
  assumes "1 \<le> concurrency opts" and "pool_inv co opts pods s"
  shows "pool_inv co opts pods (run co opts sched s)"
  using assms(2)
  by (induction sched arbitrary: s) (simp_all add: run_Nil run_Cons pool_inv_next_event [OF assms(1)])

lemma next_event_settled:
  assumes "promise s \<noteq> Pending"
  shows "promise (next_event co opts k s) = promise s"
    and "allPods (next_event co opts k s) = allPods s"
    and "set (in_flight (next_event co opts k s)) \<subseteq> set (in_flight s)"
    and "length (in_flight (next_event co opts k s)) \<le> length (in_flight s)"
proof -
  let ?i = "k mod length (in_flight s)" and ?s = "next_event co opts k s"
  let ?rest = "take ?i (in_flight s) @ drop (Suc ?i) (in_flight s)"
  have "promise ?s = promise s \<and> allPods ?s = allPods s
      \<and> set (in_flight ?s) \<subseteq> set (in_flight s)
      \<and> length (in_flight ?s) \<le> length (in_flight s)"
  proof (cases "in_flight s = []")
    case True
    then show ?thesis by (simp add: next_event_def)
  next
    case False
    then have i: "?i < length (in_flight s)" by simp
    note rm = in_flight_remove [OF i]
    from False have ev: "?s = complete co opts ?i s" by (simp add: next_event_def)
    obtain w r where res: "podCpuAndMemoryMetrics co opts (in_flight s ! ?i) = (w, r)"
      by (cases "podCpuAndMemoryMetrics co opts (in_flight s ! ?i)")
    show ?thesis
    proof (cases r)
      case (Inl e)
      with res complete_failure [OF i, of co opts w e] assms
      have "?s = s\<lparr>in_flight := ?rest, warnings := warnings s @ w\<rparr>"
        unfolding ev by simp
      with rm(1,3) show ?thesis by simp
    next
      case (Inr ms)
      with res complete_success [OF i, of co opts w ms] assms
      have "?s = s\<lparr>in_flight := ?rest, warnings := warnings s @ w,
                    metrics := metrics s @ ms\<rparr>"
        unfolding ev by simp
      with rm(1,3) show ?thesis by simp
    qed
  qed
  then show "promise ?s = promise s" "allPods ?s = allPods s"
    "set (in_flight ?s) \<subseteq> set (in_flight s)"
    "length (in_flight ?s) \<le> length (in_flight s)"
    by simp_all
qed

lemma run_settled:
  assumes "promise s \<noteq> Pending"
  shows "promise (run co opts sched s) = promise s
       \<and> allPods (run co opts sched s) = allPods s
       \<and> set (in_flight (run co opts sched s)) \<subseteq> set (in_flight s)
       \<and> length (in_flight (run co opts sched s)) \<le> length (in_flight s)"
  using assms
proof (induction sched arbitrary: s)
  case Nil
  then show ?case by (simp add: run_Nil)
next
  case (Cons k ks)
  note step = next_event_settled [OF Cons.prems, of co opts k]
  from step(1) Cons.prems have "promise (next_event co opts k s) \<noteq> Pending" by simp
  from Cons.IH [OF this] step show ?case
    unfolding run_Cons by (metis order_trans)
qed

lemma next_event_measure:
  assumes inv: "pool_inv co opts pods s" and pending: "promise s = Pending"
  shows "length (allPods (next_event co opts k s)) + length (in_flight (next_event co opts k s)) + 1
           = length (allPods s) + length (in_flight s)"
proof -
  let ?i = "k mod length (in_flight s)" and ?s = "next_event co opts k s"
  let ?rest = "take ?i (in_flight s) @ drop (Suc ?i) (in_flight s)"
  from inv pending have ne: "in_flight s \<noteq> []" by (simp add: pool_inv_def)
  then have i: "?i < length (in_flight s)" by simp
  note rm = in_flight_remove [OF i]
  from ne have ev: "?s = complete co opts ?i s" by (simp add: next_event_def)
  from inv have le: "int (length (in_flight s)) \<le> concurrency opts"
    and pd: "producer_done s \<longrightarrow> allPods s = []"
    by (simp_all add: pool_inv_def pool_frame_def)
  obtain w r where res: "podCpuAndMemoryMetrics co opts (in_flight s ! ?i) = (w, r)"
    by (cases "podCpuAndMemoryMetrics co opts (in_flight s ! ?i)")
  show ?thesis
  proof (cases r)
    case (Inl e)
    with res complete_failure [OF i, of co opts w e] pending
    have "?s = s\<lparr>in_flight := ?rest, warnings := warnings s @ w, promise := Rejected e\<rparr>"
      unfolding ev by simp
    with rm(3) show ?thesis by simp
  next
    case (Inr ms)
    let ?s2 = "s\<lparr>in_flight := ?rest, warnings := warnings s @ w, metrics := metrics s @ ms\<rparr>"
    from Inr res complete_success [OF i, of co opts w ms] pending
    have eq: "?s = proceed (concurrency opts) ?s2"
      unfolding ev by simp
    from le rm(3) have le2: "int (length (in_flight ?s2)) \<le> concurrency opts" by simp
    from pd have pd2: "producer_done ?s2 \<longrightarrow> allPods ?s2 = []" by simp
    from proceed_props(9) [OF le2 pd2] rm(3) show ?thesis
      unfolding eq by simp
  qed
qed

lemma run_settles:
  assumes c: "1 \<le> concurrency opts"
    and "pool_inv co opts pods s"
    and "length (allPods s) + length (in_flight s) \<le> length sched"
  shows "promise (run co opts sched s) \<noteq> Pending"
  using assms(2,3)
proof (induction sched arbitrary: s)
  case Nil
  then show ?case by (auto simp: run_Nil pool_inv_def)
next
  case (Cons k ks)
  show ?case
  proof (cases "promise s = Pending")
    case False
    with run_settled [OF False, of co opts "k # ks"] show ?thesis by simp
  next
    case True
    from next_event_measure [OF Cons.prems(1) True, of k] Cons.prems(2)
    have "length (allPods (next_event co opts k s)) + length (in_flight (next_event co opts k s))
        \<le> length ks"
      by simp
    from Cons.IH [OF pool_inv_next_event [OF c Cons.prems(1)] this] show ?thesis
      unfolding run_Cons .
  qed
qed

lemma start_measure:
  assumes "0 \<le> c"
  shows "length (allPods (start c pods)) + length (in_flight (start c pods)) = length pods"
  unfolding start_def
  using assms by (subst proceed_props(9)) simp_all

lemma collect_pool_cases:
  assumes "collect_pool co opts sched = Inr s"
  shows "\<exists>pods. list_all_pods co opts = Inr pods \<and> 1 \<le> concurrency opts
           \<and> s = run co opts sched (start (concurrency opts) pods)"
  using assms by (auto simp: collect_pool_def split: sum.splits if_splits)

lemma list_all_pods_cases:
  assumes "list_all_pods co opts = Inr pods"
  shows "\<exists>nss pss. namespace opts = Some nss
           \<and> those (map (\<lambda>ns. listPods co (osApi opts) ns (accessToken opts) (agent opts)) nss)
               = Some pss
           \<and> pods = filter (\<lambda>p. \<not> terminal p) (concat pss)"
  using assms by (auto simp: list_all_pods_def terminal_def split: option.splits)

lemma proceed_one:
  assumes "\<not> producer_done s" and "allPods s \<noteq> []"
    and "int (length (in_flight s)) + 1 = c"
  shows "proceed c s
    = s\<lparr>allPods := butlast (allPods s), in_flight := in_flight s @ [last (allPods s)]\<rparr>"
proof -
  let ?s = "s\<lparr>allPods := butlast (allPods s), in_flight := in_flight s @ [last (allPods s)]\<rparr>"
  from assms have "dispatch c s = dispatch c ?s"
    by (subst dispatch_unfold) simp
  also from assms have "\<dots> = ?s"
    by (subst dispatch_unfold) simp
  finally show ?thesis
    using assms by (simp add: proceed_def Let_def)
qed

lemma proceed_none:
  assumes "allPods s = []" and "int (length (in_flight s)) < c"
  shows "allPods (proceed c s) = [] \<and> in_flight (proceed c s) = in_flight s
       \<and> producer_done (proceed c s)
       \<and> promise (proceed c s) = (if in_flight s = [] then Resolved else promise s)"
proof -
  from assms have "dispatch c s = s\<lparr>producer_done := True\<rparr>"
    by (subst dispatch_unfold) simp
  then show ?thesis
    using assms by (simp add: proceed_def Let_def)
qed

lemma ex_listing:
  "list_all_pods ex_cluster (ex_options [''staging'', ''prod''] c)
     = Inr [ex_api, ex_legacy, ex_web, ex_db]"
  by (simp add: list_all_pods_def ex_options_def ex_cluster_def ex_listPods_def ex_pod_defs)

lemma ex_listing_prod:
  "list_all_pods ex_cluster (ex_options [''prod''] c) = Inr [ex_web, ex_db]"
  by (simp add: list_all_pods_def ex_options_def ex_cluster_def ex_listPods_def ex_pod_defs)

lemma ex_usage:
  "podCpuAndMemoryMetrics ex_cluster (ex_options nss c) ex_db
     = (ex_warnings ex_db, Inr (ex_metrics ex_db))"
  "podCpuAndMemoryMetrics ex_cluster (ex_options nss c) ex_web
     = (ex_warnings ex_web, Inr (ex_metrics ex_web))"
  "podCpuAndMemoryMetrics ex_cluster (ex_options nss c) ex_legacy = ([], Inl ex_shape_error)"
  "podCpuAndMemoryMetrics ex_cluster (ex_options nss c) ex_api
     = ([], Inl (UpstreamError 503
          ''https://os/apis/metrics.k8s.io/v1beta1/namespaces/staging/pods/api''))"
proof -
  have call: "podCpuAndMemoryMetrics ex_cluster (ex_options nss c) p
      = fetchPodMemoryAndCpuUsage ex_cluster p ''t'' ''https://os'' None" for p
    by (simp add: podCpuAndMemoryMetrics_def ex_options_def)
  show "podCpuAndMemoryMetrics ex_cluster (ex_options nss c) ex_db
     = (ex_warnings ex_db, Inr (ex_metrics ex_db))"
    unfolding call ex_warnings_def ex_metrics_def by (simp add: ex_db_result)
  show "podCpuAndMemoryMetrics ex_cluster (ex_options nss c) ex_web
     = (ex_warnings ex_web, Inr (ex_metrics ex_web))"
    unfolding call ex_warnings_def ex_metrics_def by (simp add: ex_web_result)
  show "podCpuAndMemoryMetrics ex_cluster (ex_options nss c) ex_legacy
     = ([], Inl ex_shape_error)"
    unfolding call ex_shape_error_def
    by (simp add: fetch_after_status [OF ex_fetch_legacy] ex_status_body_def)
  show "podCpuAndMemoryMetrics ex_cluster (ex_options nss c) ex_api
     = ([], Inl (UpstreamError 503
          ''https://os/apis/metrics.k8s.io/v1beta1/namespaces/staging/pods/api''))"
    unfolding call by (simp add: fetchPodMemoryAndCpuUsage_def ex_fetch_api)
qed

lemma start_two:
  "start 2 [a, b, c, d]
     = \<lparr>allPods = [a, b], in_flight = [d, c], metrics = [], warnings = [],
        producer_done = False, promise = Pending\<rparr>"
proof -
  let ?s0 = "\<lparr>allPods = [a, b, c, d], in_flight = [], metrics = [], warnings = [],
        producer_done = False, promise = Pending\<rparr>"
  let ?s1 = "\<lparr>allPods = [a, b, c], in_flight = [d], metrics = [], warnings = [],
        producer_done = False, promise = Pending\<rparr>"
  let ?s2 = "\<lparr>allPods = [a, b], in_flight = [d, c], metrics = [], warnings = [],
        producer_done = False, promise = Pending\<rparr>"
  have "dispatch 2 ?s0 = dispatch 2 ?s1" by (subst dispatch_unfold) simp
  also have "\<dots> = dispatch 2 ?s2" by (subst dispatch_unfold) simp
  also have "\<dots> = ?s2" by (subst dispatch_unfold) simp
  finally show ?thesis by (simp add: start_def proceed_def Let_def)
qed

lemma start_one:
  "start 1 [a, b]
     = \<lparr>allPods = [a], in_flight = [b], metrics = [], warnings = [],
        producer_done = False, promise = Pending\<rparr>"
proof -
  let ?s0 = "\<lparr>allPods = [a, b], in_flight = [], metrics = [], warnings = [],
        producer_done = False, promise = Pending\<rparr>"
  let ?s1 = "\<lparr>allPods = [a], in_flight = [b], metrics = [], warnings = [],
        producer_done = False, promise = Pending\<rparr>"
  have "dispatch 1 ?s0 = dispatch 1 ?s1" by (subst dispatch_unfold) simp
  also have "\<dots> = ?s1" by (subst dispatch_unfold) simp
  finally show ?thesis by (simp add: start_def proceed_def Let_def)
qed

lemma ex_cycle:
  "collect_pool ex_cluster (ex_options [''staging'', ''prod''] 2) []
     = Inr \<lparr>allPods = [ex_api, ex_legacy], in_flight = [ex_db, ex_web], metrics = [],
            warnings = [], producer_done = False, promise = Pending\<rparr>"
  "collect_pool ex_cluster (ex_options [''staging'', ''prod''] 2) [0]
     = Inr \<lparr>allPods = [ex_api], in_flight = [ex_web, ex_legacy], metrics = ex_metrics ex_db,
            warnings = ex_warnings ex_db, producer_done = False, promise = Pending\<rparr>"
  "collect_pool ex_cluster (ex_options [''staging'', ''prod''] 2) [0, 1]
     = Inr \<lparr>allPods = [ex_api], in_flight = [ex_web], metrics = ex_metrics ex_db,
            warnings = ex_warnings ex_db, producer_done = False,
            promise = Rejected ex_shape_error\<rparr>"
  "collect_pool ex_cluster (ex_options [''staging'', ''prod''] 2) [0, 1, 0]
     = Inr \<lparr>allPods = [ex_api], in_flight = [], metrics = ex_metrics ex_db @ ex_metrics ex_web,
            warnings = ex_warnings ex_db @ ex_warnings ex_web, producer_done = False,
            promise = Rejected ex_shape_error\<rparr>"
  "collect_pool ex_cluster (ex_options [''staging'', ''prod''] 2) [0, 1, 0, 0]
     = Inr \<lparr>allPods = [ex_api], in_flight = [], metrics = ex_metrics ex_db @ ex_metrics ex_web,
            warnings = ex_warnings ex_db @ ex_warnings ex_web, producer_done = False,
            promise = Rejected ex_shape_error\<rparr>"
proof -
  let ?opts = "ex_options [''staging'', ''prod''] 2"
  let ?s0 = "\<lparr>allPods = [ex_api, ex_legacy], in_flight = [ex_db, ex_web], metrics = [],
            warnings = [], producer_done = False, promise = Pending\<rparr>"
  let ?s1 = "\<lparr>allPods = [ex_api], in_flight = [ex_web, ex_legacy], metrics = ex_metrics ex_db,
            warnings = ex_warnings ex_db, producer_done = False, promise = Pending\<rparr>"
  let ?s2 = "\<lparr>allPods = [ex_api], in_flight = [ex_web], metrics = ex_metrics ex_db,
            warnings = ex_warnings ex_db, producer_done = False,
            promise = Rejected ex_shape_error\<rparr>"
  let ?s3 = "\<lparr>allPods = [ex_api], in_flight = [], metrics = ex_metrics ex_db @ ex_metrics ex_web,
            warnings = ex_warnings ex_db @ ex_warnings ex_web, producer_done = False,
            promise = Rejected ex_shape_error\<rparr>"
  have c: "concurrency ?opts = 2" by (simp add: ex_options_def)
  have pool: "collect_pool ex_cluster ?opts ks = Inr (run ex_cluster ?opts ks ?s0)" for ks
    by (simp add: collect_pool_def ex_listing c start_two)
  have e1: "next_event ex_cluster ?opts 0 ?s0 = ?s1"
    by (simp add: next_event_def complete_success [where w = "ex_warnings ex_db"
          and ms = "ex_metrics ex_db"] ex_usage c proceed_one)
  have e2: "next_event ex_cluster ?opts (Suc 0) ?s1 = ?s2"
    by (simp add: next_event_def complete_failure [where w = "[]" and e = ex_shape_error]
        ex_usage)
  have e3: "next_event ex_cluster ?opts 0 ?s2 = ?s3"
    by (simp add: next_event_def complete_success [where w = "ex_warnings ex_web"
          and ms = "ex_metrics ex_web"] ex_usage)
  have e4: "next_event ex_cluster ?opts 0 ?s3 = ?s3"
    by (simp add: next_event_def)
  show "collect_pool ex_cluster ?opts [] = Inr ?s0"
    by (simp add: pool run_Nil)
  show "collect_pool ex_cluster ?opts [0] = Inr ?s1"
    by (simp add: pool run_Nil run_Cons e1)
  show "collect_pool ex_cluster ?opts [0, 1] = Inr ?s2"
    by (simp add: pool run_Nil run_Cons e1 e2)
  show "collect_pool ex_cluster ?opts [0, 1, 0] = Inr ?s3"
    by (simp add: pool run_Nil run_Cons e1 e2 e3)
  show "collect_pool ex_cluster ?opts [0, 1, 0, 0] = Inr ?s3"
    by (simp add: pool run_Nil run_Cons e1 e2 e3 e4)
qed

lemma ex_cycle_prod:
  "collect_pool ex_cluster (ex_options [''prod''] 1) [0, 0]
     = Inr \<lparr>allPods = [], in_flight = [], metrics = ex_metrics ex_db @ ex_metrics ex_web,
            warnings = ex_warnings ex_db @ ex_warnings ex_web, producer_done = True,
            promise = Resolved\<rparr>"
proof -
  let ?opts = "ex_options [''prod''] 1"
  let ?s0 = "\<lparr>allPods = [ex_web], in_flight = [ex_db], metrics = [],
            warnings = [], producer_done = False, promise = Pending\<rparr>"
  let ?s1 = "\<lparr>allPods = [], in_flight = [ex_web], metrics = ex_metrics ex_db,
            warnings = ex_warnings ex_db, producer_done = False, promise = Pending\<rparr>"
  let ?s2 = "\<lparr>allPods = [], in_flight = [], metrics = ex_metrics ex_db @ ex_metrics ex_web,
            warnings = ex_warnings ex_db @ ex_warnings ex_web, producer_done = True,
            promise = Resolved\<rparr>"
  have c: "concurrency ?opts = 1" by (simp add: ex_options_def)
  have pool: "collect_pool ex_cluster ?opts ks = Inr (run ex_cluster ?opts ks ?s0)" for ks
    by (simp add: collect_pool_def ex_listing_prod c start_one)
  have e1: "next_event ex_cluster ?opts 0 ?s0 = ?s1"
    by (simp add: next_event_def complete_success [where w = "ex_warnings ex_db"
          and ms = "ex_metrics ex_db"] ex_usage c proceed_one)
  have "dispatch 1 \<lparr>allPods = [], in_flight = [], metrics = ex_metrics ex_db @ ex_metrics ex_web,
            warnings = ex_warnings ex_db @ ex_warnings ex_web, producer_done = False,
            promise = Pending\<rparr>
      = \<lparr>allPods = [], in_flight = [], metrics = ex_metrics ex_db @ ex_metrics ex_web,
            warnings = ex_warnings ex_db @ ex_warnings ex_web, producer_done = True,
            promise = Pending\<rparr>"
    by (subst dispatch_unfold) simp
  then have e2: "next_event ex_cluster ?opts 0 ?s1 = ?s2"
    by (simp add: next_event_def complete_success [where w = "ex_warnings ex_web"
          and ms = "ex_metrics ex_web"] ex_usage c proceed_def Let_def)
  show ?thesis
    by (simp add: pool run_Nil run_Cons e1 e2)
qed

lemma ex_start_prod:
  "collect_pool ex_cluster (ex_options [''prod''] 1) []
     = Inr \<lparr>allPods = [ex_web], in_flight = [ex_db], metrics = [],
            warnings = [], producer_done = False, promise = Pending\<rparr>"
proof -
  have "concurrency (ex_options [''prod''] 1) = 1" by (simp add: ex_options_def)
  then show ?thesis
    by (simp add: collect_pool_def ex_listing_prod start_one run_Nil)
qed

section \<open>Fail-fast collection\<close>

text \<open>
  Claim C1. Let the pods of a cycle (listed, not terminal) include one whose usage fetch
  fails. Then \<open>collectMetrics\<close> never returns a metric set, after no sequence of events
  and whichever fetch settles when; once as many fetches have settled as there are
  pods, it has failed, with the error of the fetch of one of the pods (or the pool's
  refusal of a concurrency below 1). And once the pool has rejected, whatever events
  follow leave the pending pods where they are: none is dispatched, the fetches in
  flight only settle, and the failure stands.
\<close>

theorem fail_fast:
  assumes "list_all_pods co opts = Inr pods"
    and "p \<in> set pods"
    and "snd (podCpuAndMemoryMetrics co opts p) = Inl e"
  shows "(\<forall>ms. collectMetrics co opts sched \<noteq> Some (Inr ms))
       \<and> (length pods \<le> length sched \<longrightarrow>
            (\<exists>e'. collectMetrics co opts sched = Some (Inl e')
               \<and> (e' = InvalidConcurrency
                    \<or> (\<exists>q\<in>set pods. snd (podCpuAndMemoryMetrics co opts q) = Inl e'))))
       \<and> (\<forall>s e'. collect_pool co opts sched = Inr s \<and> promise s = Rejected e' \<longrightarrow>
            (\<exists>s'. collect_pool co opts (sched @ later) = Inr s'
               \<and> promise s' = Rejected e'
               \<and> allPods s' = allPods s
               \<and> set (in_flight s') \<subseteq> set (in_flight s)
               \<and> length (in_flight s') \<le> length (in_flight s))
          \<and> collectMetrics co opts (sched @ later) = Some (Inl e'))"
proof (cases "1 \<le> concurrency opts")
  case False
  with assms(1) have "collect_pool co opts ks = Inl InvalidConcurrency" for ks
    by (simp add: collect_pool_def)
  then have "collectMetrics co opts ks = Some (Inl InvalidConcurrency)"
    and "collect_pool co opts ks \<noteq> Inr s" for ks s
    by (simp_all add: collectMetrics_def)
  then show ?thesis by simp
next
  case c: True
  let ?c = "concurrency opts"
  have pool: "collect_pool co opts ks = Inr (run co opts ks (start ?c pods))" for ks
    using assms(1) c by (simp add: collect_pool_def)
  have inv: "pool_inv co opts pods (run co opts ks (start ?c pods))" for ks
    by (intro pool_inv_run pool_inv_start c)
  have bad: "fails co opts p" using assms(3) by (auto simp: fails_def)
  have never: "promise (run co opts ks (start ?c pods)) \<noteq> Resolved" for ks
  proof
    let ?s = "run co opts ks (start ?c pods)"
    assume r: "promise ?s = Resolved"
    with inv [of ks] have empty: "in_flight ?s = []" "allPods ?s = []"
      by (simp_all add: pool_inv_def)
    from r have "\<forall>e. promise ?s \<noteq> Rejected e" by simp
    with inv [of ks]
    have "\<forall>q\<in>set pods. fails co opts q \<longrightarrow> q \<in> set (allPods ?s) \<union> set (in_flight ?s)"
      unfolding pool_inv_def pool_frame_def by blast
    with assms(2) bad empty show False by auto
  qed
  have first: "collectMetrics co opts sched \<noteq> Some (Inr ms)" for ms
    using never [of sched]
    by (cases "promise (run co opts sched (start ?c pods))")
       (simp_all add: collectMetrics_def pool)
  have second: "\<exists>e'. collectMetrics co opts sched = Some (Inl e')
               \<and> (e' = InvalidConcurrency
                    \<or> (\<exists>q\<in>set pods. snd (podCpuAndMemoryMetrics co opts q) = Inl e'))"
    if len: "length pods \<le> length sched"
  proof -
    let ?s = "run co opts sched (start ?c pods)"
    from c have "0 \<le> ?c" by simp
    from start_measure [OF this, of pods] len
    have "length (allPods (start ?c pods)) + length (in_flight (start ?c pods)) \<le> length sched"
      by simp
    from run_settles [OF c pool_inv_start [OF c] this]
    have "promise ?s \<noteq> Pending" .
    with never [of sched] obtain e' where e': "promise ?s = Rejected e'"
      by (cases "promise ?s") auto
    with inv [of sched] have "\<exists>q\<in>set pods. snd (podCpuAndMemoryMetrics co opts q) = Inl e'"
      by (simp add: pool_inv_def pool_frame_def)
    moreover from e' have "collectMetrics co opts sched = Some (Inl e')"
      by (simp add: collectMetrics_def pool)
    ultimately show ?thesis by blast
  qed
  have third: "(\<exists>s'. collect_pool co opts (sched @ later) = Inr s'
               \<and> promise s' = Rejected e'
               \<and> allPods s' = allPods s
               \<and> set (in_flight s') \<subseteq> set (in_flight s)
               \<and> length (in_flight s') \<le> length (in_flight s))
          \<and> collectMetrics co opts (sched @ later) = Some (Inl e')"
    if "collect_pool co opts sched = Inr s \<and> promise s = Rejected e'" for s e'
  proof -
    from that have s: "s = run co opts sched (start ?c pods)" and rej: "promise s = Rejected e'"
      by (simp_all add: pool)
    let ?s' = "run co opts later s"
    have s': "run co opts (sched @ later) (start ?c pods) = ?s'"
      by (simp add: run_append s)
    from rej have "promise s \<noteq> Pending" by simp
    from run_settled [OF this, of co opts later] rej
    have "promise ?s' = Rejected e'" "allPods ?s' = allPods s"
      "set (in_flight ?s') \<subseteq> set (in_flight s)"
      "length (in_flight ?s') \<le> length (in_flight s)"
      by simp_all
    then show ?thesis
      by (simp add: collectMetrics_def pool s')
  qed
  from first second third show ?thesis by blast
qed

text \<open>
  The instance: the namespaces \<open>staging\<close> and \<open>prod\<close> with concurrency 2. The fetch for
  \<open>db\<close> succeeds, then the one for \<open>legacy\<close> fails while \<open>web\<close> is in flight and \<open>api\<close>
  is pending; \<open>web\<close> settles afterwards and \<open>api\<close> is never dispatched.
\<close>

theorem fail_fast_witness:
  "collectMetrics ex_cluster (ex_options [''staging'', ''prod''] 2) [0, 1, 0, 0]
     = Some (Inl ex_shape_error)
   \<and> map_sum id allPods (collect_pool ex_cluster (ex_options [''staging'', ''prod''] 2) [0, 1])
       = Inr [ex_api]
   \<and> map_sum id allPods
       (collect_pool ex_cluster (ex_options [''staging'', ''prod''] 2) ([0, 1] @ [0, 0]))
       = Inr [ex_api]
   \<and> collectMetrics ex_cluster (ex_options [''staging'', ''prod''] 2) ([0, 1] @ [0, 0])
       = Some (Inl ex_shape_error)"
proof -
  let ?opts = "ex_options [''staging'', ''prod''] 2"
  have p: "ex_legacy \<in> set [ex_api, ex_legacy, ex_web, ex_db]" by simp
  have f: "snd (podCpuAndMemoryMetrics ex_cluster ?opts ex_legacy) = Inl ex_shape_error"
    by (simp add: ex_usage)
  note t = fail_fast [OF ex_listing p f]
  from t [of "[0, 1, 0, 0]", THEN conjunct2, THEN conjunct1]
  have "\<exists>e'. collectMetrics ex_cluster ?opts [0, 1, 0, 0] = Some (Inl e')"
    by auto
  have first: "collectMetrics ex_cluster ?opts [0, 1, 0, 0] = Some (Inl ex_shape_error)"
    by (simp only: collectMetrics_def ex_cycle) simp
  have rej: "promise \<lparr>allPods = [ex_api], in_flight = [ex_web], metrics = ex_metrics ex_db,
            warnings = ex_warnings ex_db, producer_done = False,
            promise = Rejected ex_shape_error\<rparr> = Rejected ex_shape_error"
    by simp
  from t [of "[0, 1]" "[0, 0]", THEN conjunct2, THEN conjunct2, rule_format,
      OF conjI [OF ex_cycle(3) rej]]
  have "collectMetrics ex_cluster ?opts ([0, 1] @ [0, 0]) = Some (Inl ex_shape_error)"
    by blast
  with first show ?thesis
    by (simp only: append_Cons append_Nil ex_cycle) simp
qed

section \<open>Terminal pods\<close>

text \<open>
  Claim C4. No pod of the list that \<open>collectMetrics\<close> works on is in the phase \<open>Failed\<close>
  or \<open>Succeeded\<close>, whatever its namespace and spec. So at every moment of a cycle no
  such pod is pending or in flight in the pool, which is where fetches are dispatched
  from, and every record collected, hence every record returned, comes from the fetch
  of a listed pod that is not terminal.
\<close>

theorem terminal_pods_skipped:
  "(list_all_pods co opts = Inr pods \<longrightarrow> (\<forall>p\<in>set pods. \<not> terminal p))
   \<and> (collect_pool co opts sched = Inr s \<longrightarrow>
        (\<forall>p\<in>set (allPods s) \<union> set (in_flight s). \<not> terminal p)
      \<and> (\<forall>m\<in>set (metrics s). \<exists>p. \<not> terminal p
            \<and> m \<in> set (projr (snd (podCpuAndMemoryMetrics co opts p)))))
   \<and> (collectMetrics co opts sched = Some (Inr ms) \<longrightarrow>
        (\<forall>m\<in>set ms. \<exists>p nss pss.
            namespace opts = Some nss
          \<and> those (map (\<lambda>ns. listPods co (osApi opts) ns (accessToken opts) (agent opts)) nss)
              = Some pss
          \<and> p \<in> set (concat pss) \<and> \<not> terminal p
          \<and> m \<in> set (projr (snd (podCpuAndMemoryMetrics co opts p)))))"
proof (intro conjI impI)
  assume "list_all_pods co opts = Inr pods"
  from list_all_pods_cases [OF this] show "\<forall>p\<in>set pods. \<not> terminal p"
    by auto
next
  assume a: "collect_pool co opts sched = Inr s"
  from collect_pool_cases [OF a] obtain pods0 where
    l: "list_all_pods co opts = Inr pods0" and c: "1 \<le> concurrency opts"
    and s: "s = run co opts sched (start (concurrency opts) pods0)"
    by blast
  from list_all_pods_cases [OF l] have nt: "\<forall>p\<in>set pods0. \<not> terminal p"
    by auto
  have "pool_inv co opts pods0 s"
    unfolding s by (intro pool_inv_run pool_inv_start c)
  then have sub: "set (allPods s) \<union> set (in_flight s) \<subseteq> set pods0"
    and met: "\<forall>m\<in>set (metrics s). \<exists>p\<in>set pods0. \<not> fails co opts p
         \<and> m \<in> set (projr (snd (podCpuAndMemoryMetrics co opts p)))"
    by (simp_all add: pool_inv_def pool_frame_def)
  from sub nt show "\<forall>p\<in>set (allPods s) \<union> set (in_flight s). \<not> terminal p"
    by blast
  from met nt show "\<forall>m\<in>set (metrics s). \<exists>p. \<not> terminal p
            \<and> m \<in> set (projr (snd (podCpuAndMemoryMetrics co opts p)))"
    by blast
next
  assume a: "collectMetrics co opts sched = Some (Inr ms)"
  then obtain s where p: "collect_pool co opts sched = Inr s" and ms: "ms = metrics s"
    by (auto simp: collectMetrics_def split: sum.splits promise_state.splits)
  from collect_pool_cases [OF p] obtain pods0 where
    l: "list_all_pods co opts = Inr pods0" and c: "1 \<le> concurrency opts"
    and s: "s = run co opts sched (start (concurrency opts) pods0)"
    by blast
  from list_all_pods_cases [OF l] obtain nss pss where
    nss: "namespace opts = Some nss"
    and pss: "those (map (\<lambda>ns. listPods co (osApi opts) ns (accessToken opts) (agent opts)) nss)
               = Some pss"
    and pods0: "pods0 = filter (\<lambda>p. \<not> terminal p) (concat pss)"
    by blast
  have "pool_inv co opts pods0 s"
    unfolding s by (intro pool_inv_run pool_inv_start c)
  then have met: "\<forall>m\<in>set (metrics s). \<exists>p\<in>set pods0. \<not> fails co opts p
         \<and> m \<in> set (projr (snd (podCpuAndMemoryMetrics co opts p)))"
    by (simp add: pool_inv_def pool_frame_def)
  show "\<forall>m\<in>set ms. \<exists>p nss pss.
            namespace opts = Some nss
          \<and> those (map (\<lambda>ns. listPods co (osApi opts) ns (accessToken opts) (agent opts)) nss)
              = Some pss
          \<and> p \<in> set (concat pss) \<and> \<not> terminal p
          \<and> m \<in> set (projr (snd (podCpuAndMemoryMetrics co opts p)))"
  proof
    fix m assume "m \<in> set ms"
    with met ms obtain p where "p \<in> set pods0"
      and m: "m \<in> set (projr (snd (podCpuAndMemoryMetrics co opts p)))"
      by blast
    with pods0 have "p \<in> set (concat pss)" "\<not> terminal p" by simp_all
    with nss pss m show "\<exists>p nss pss.
            namespace opts = Some nss
          \<and> those (map (\<lambda>ns. listPods co (osApi opts) ns (accessToken opts) (agent opts)) nss)
              = Some pss
          \<and> p \<in> set (concat pss) \<and> \<not> terminal p
          \<and> m \<in> set (projr (snd (podCpuAndMemoryMetrics co opts p)))"
      by blast
  qed
qed

text \<open>
  The instance: the namespace \<open>prod\<close> lists \<open>web\<close>, the completed \<open>job\<close> and \<open>db\<close>. The
  cycle works on \<open>web\<close> and \<open>db\<close>, with concurrency 1 it starts with the fetch for
  \<open>db\<close>, and it returns the records of the two.
\<close>

theorem terminal_pods_skipped_witness:
  "terminal ex_job
   \<and> listPods ex_cluster ''https://os'' ''prod'' ''t'' None = Some [ex_web, ex_job, ex_db]
   \<and> list_all_pods ex_cluster (ex_options [''prod''] 1) = Inr [ex_web, ex_db]
   \<and> \<not> terminal ex_web \<and> \<not> terminal ex_db
   \<and> map_sum id in_flight (collect_pool ex_cluster (ex_options [''prod''] 1) []) = Inr [ex_db]
   \<and> collectMetrics ex_cluster (ex_options [''prod''] 1) [0, 0]
       = Some (Inr (ex_metrics ex_db @ ex_metrics ex_web))"
proof -
  note t = terminal_pods_skipped [of ex_cluster "ex_options [''prod''] 1" "[ex_web, ex_db]" "[]"
      "\<lparr>allPods = [ex_web], in_flight = [ex_db], metrics = [],
            warnings = [], producer_done = False, promise = Pending\<rparr>"]
  from t [THEN conjunct1, THEN mp, OF ex_listing_prod] have "\<not> terminal ex_web" by simp
  moreover from t [THEN conjunct2, THEN conjunct1, THEN mp, OF ex_start_prod]
  have "\<not> terminal ex_db" by simp
  moreover have "terminal ex_job"
    by (simp add: terminal_def ex_job_def)
  moreover have "listPods ex_cluster ''https://os'' ''prod'' ''t'' None
      = Some [ex_web, ex_job, ex_db]"
    by (simp add: ex_cluster_def ex_listPods_def)
  moreover have "collectMetrics ex_cluster (ex_options [''prod''] 1) [0, 0]
       = Some (Inr (ex_metrics ex_db @ ex_metrics ex_web))"
    by (simp add: collectMetrics_def ex_cycle_prod)
  ultimately show ?thesis
    by (simp add: ex_listing_prod ex_start_prod)
qed

section \<open>The bound on the fetches in flight\<close>

text \<open>
  Claim C7, as amended. In every state of a collection cycle the number of usage
  fetches in flight is at most the configured concurrency, which is 10 when the server
  option is omitted and the given number otherwise. Each time a fetch completes
  successfully while the pool has not rejected, the next pending pod, if any, is
  dispatched: the last one of \<open>allPods\<close> is taken from it and joins the fetches in
  flight; if none is pending, none is dispatched. (After a failure no pod is
  dispatched any more, which is claim C1.)
\<close>

theorem bounded_dispatch:
  assumes "collect_pool co opts sched = Inr s"
  shows "int (length (in_flight s)) \<le> concurrency opts
       \<and> collect_pool co opts (sched @ [k]) = Inr (next_event co opts k s)
       \<and> (promise s = Pending
            \<and> snd (podCpuAndMemoryMetrics co opts (in_flight s ! (k mod length (in_flight s))))
                = Inr ms \<longrightarrow>
            (allPods s \<noteq> [] \<longrightarrow>
               allPods (next_event co opts k s) = butlast (allPods s)
             \<and> in_flight (next_event co opts k s)
                 = take (k mod length (in_flight s)) (in_flight s)
                   @ drop (Suc (k mod length (in_flight s))) (in_flight s)
                   @ [last (allPods s)]
             \<and> promise (next_event co opts k s) = Pending)
          \<and> (allPods s = [] \<longrightarrow>
               allPods (next_event co opts k s) = []
             \<and> in_flight (next_event co opts k s)
                 = take (k mod length (in_flight s)) (in_flight s)
                   @ drop (Suc (k mod length (in_flight s))) (in_flight s)))
       \<and> concurrency (handler_options (so\<lparr>so_concurrency := None\<rparr>) q) = 10
       \<and> concurrency (handler_options (so\<lparr>so_concurrency := Some n\<rparr>) q) = n"
proof -
  from collect_pool_cases [OF assms] obtain pods where
    l: "list_all_pods co opts = Inr pods" and c: "1 \<le> concurrency opts"
    and s: "s = run co opts sched (start (concurrency opts) pods)"
    by blast
  let ?c = "concurrency opts" and ?i = "k mod length (in_flight s)"
  let ?rest = "take ?i (in_flight s) @ drop (Suc ?i) (in_flight s)"
  have inv: "pool_inv co opts pods s"
    unfolding s by (intro pool_inv_run pool_inv_start c)
  then have bound: "int (length (in_flight s)) \<le> ?c"
    and pd: "producer_done s \<longrightarrow> allPods s = []"
    by (simp_all add: pool_inv_def pool_frame_def)
  have nxt: "collect_pool co opts (sched @ [k]) = Inr (next_event co opts k s)"
    using l c by (simp add: collect_pool_def run_append run_Cons run_Nil s)
  have step: "(allPods s \<noteq> [] \<longrightarrow>
               allPods (next_event co opts k s) = butlast (allPods s)
             \<and> in_flight (next_event co opts k s) = ?rest @ [last (allPods s)]
             \<and> promise (next_event co opts k s) = Pending)
          \<and> (allPods s = [] \<longrightarrow>
               allPods (next_event co opts k s) = []
             \<and> in_flight (next_event co opts k s) = ?rest)"
    if pending: "promise s = Pending"
      and ok: "snd (podCpuAndMemoryMetrics co opts (in_flight s ! ?i)) = Inr ms"
  proof -
    from inv pending have ne: "in_flight s \<noteq> []"
      and full: "\<not> producer_done s \<longrightarrow> int (length (in_flight s)) = ?c"
      by (simp_all add: pool_inv_def)
    then have i: "?i < length (in_flight s)" by simp
    note rm = in_flight_remove [OF i]
    from ok obtain w where res: "podCpuAndMemoryMetrics co opts (in_flight s ! ?i) = (w, Inr ms)"
      by (cases "podCpuAndMemoryMetrics co opts (in_flight s ! ?i)") auto
    let ?s2 = "s\<lparr>in_flight := ?rest, warnings := warnings s @ w, metrics := metrics s @ ms\<rparr>"
    from ne complete_success [OF i res] pending
    have ev: "next_event co opts k s = proceed ?c ?s2"
      by (simp add: next_event_def)
    show ?thesis
    proof (cases "allPods s = []")
      case True
      from bound rm(3) have "int (length (in_flight ?s2)) < ?c" by simp
      with proceed_none [of ?s2 ?c] True show ?thesis
        unfolding ev by simp
    next
      case False
      with pd have nd: "\<not> producer_done ?s2" by auto
      with full rm(3) have "int (length (in_flight ?s2)) + 1 = ?c" by simp
      from proceed_one [OF nd _ this] False pending show ?thesis
        unfolding ev by simp
    qed
  qed
  have dflt: "concurrency (handler_options (so\<lparr>so_concurrency := None\<rparr>) q) = 10"
    "concurrency (handler_options (so\<lparr>so_concurrency := Some n\<rparr>) q) = n"
    by (simp_all add: handler_options_def server_concurrency_def)
  from bound nxt step dflt show ?thesis
    unfolding append_assoc by blast
qed

text \<open>
  The instance: with concurrency 2 and four pods, two fetches are in flight; when the
  one for \<open>db\<close> succeeds, \<open>legacy\<close> is dispatched. The server of the small cluster omits
  the option.
\<close>

theorem bounded_dispatch_witness:
  "map_sum id in_flight (collect_pool ex_cluster (ex_options [''staging'', ''prod''] 2) [])
     = Inr [ex_db, ex_web]
   \<and> map_sum id allPods (collect_pool ex_cluster (ex_options [''staging'', ''prod''] 2) [])
     = Inr [ex_api, ex_legacy]
   \<and> map_sum id in_flight
       (collect_pool ex_cluster (ex_options [''staging'', ''prod''] 2) ([] @ [0]))
     = Inr [ex_web, ex_legacy]
   \<and> map_sum id allPods
       (collect_pool ex_cluster (ex_options [''staging'', ''prod''] 2) ([] @ [0]))
     = Inr [ex_api]
   \<and> concurrency (handler_options ex_server \<lparr>q_namespace = None, q_excitement = None\<rparr>) = 10"
proof -
  let ?opts = "ex_options [''staging'', ''prod''] 2"
  note t = bounded_dispatch [OF ex_cycle(1), of 0 "ex_metrics ex_db" ex_server
      "\<lparr>q_namespace = None, q_excitement = None\<rparr>"]
  from t have "collect_pool ex_cluster ?opts ([] @ [0])
      = Inr (next_event ex_cluster ?opts 0
          \<lparr>allPods = [ex_api, ex_legacy], in_flight = [ex_db, ex_web], metrics = [],
            warnings = [], producer_done = False, promise = Pending\<rparr>)"
    by blast
  moreover from t have "allPods (next_event ex_cluster ?opts 0
          \<lparr>allPods = [ex_api, ex_legacy], in_flight = [ex_db, ex_web], metrics = [],
            warnings = [], producer_done = False, promise = Pending\<rparr>) = [ex_api]
     \<and> in_flight (next_event ex_cluster ?opts 0
          \<lparr>allPods = [ex_api, ex_legacy], in_flight = [ex_db, ex_web], metrics = [],
            warnings = [], producer_done = False, promise = Pending\<rparr>) = [ex_web, ex_legacy]"
    by (simp add: ex_usage)
  moreover have "concurrency (handler_options ex_server
      \<lparr>q_namespace = None, q_excitement = None\<rparr>) = 10"
    by (simp add: handler_options_def server_concurrency_def ex_server_def)
  ultimately show ?thesis
    by (simp only: ex_cycle(1)) simp
qed

text \<open>
  The claim as the specification words it has the next pending pod dispatched each time
  a fetch completes. In the cycle above the fetch for \<open>legacy\<close> fails while \<open>web\<close> is in
  flight and \<open>api\<close> is pending. The fetch for \<open>web\<close> then completes, successfully, and
  \<open>api\<close> stays pending with nothing in flight.
\<close>

theorem bounded_dispatch_counterexample:
  "collect_pool ex_cluster (ex_options [''staging'', ''prod''] 2) [0, 1]
     = Inr \<lparr>allPods = [ex_api], in_flight = [ex_web], metrics = ex_metrics ex_db,
            warnings = ex_warnings ex_db, producer_done = False,
            promise = Rejected ex_shape_error\<rparr>
   \<and> snd (podCpuAndMemoryMetrics ex_cluster (ex_options [''staging'', ''prod''] 2) ex_web)
       = Inr (ex_metrics ex_web)
   \<and> collect_pool ex_cluster (ex_options [''staging'', ''prod''] 2) [0, 1, 0]
     = Inr \<lparr>allPods = [ex_api], in_flight = [], metrics = ex_metrics ex_db @ ex_metrics ex_web,
            warnings = ex_warnings ex_db @ ex_warnings ex_web, producer_done = False,
            promise = Rejected ex_shape_error\<rparr>"
  by (simp only: ex_cycle ex_usage) simp

section \<open>The query parameter \<open>excitement\<close>\<close>

text \<open>
  Claim C10. The schema of \<open>GET /metrics\<close> admits an integer \<open>excitement\<close>, and the handler
  does not read it: two queries with the same \<open>namespace\<close> are both valid or both
  invalid, the handler passes the same argument to \<open>collectMetrics\<close> for both, and the
  response is the same (for the same upstream and the same order of events), whether
  \<open>excitement\<close> is absent or present and whatever its value.
\<close>

theorem excitement_unread:
  fixes q1 q2 :: query
  assumes "q_namespace q1 = q_namespace q2"
  shows "querystring_schema q1 = querystring_schema q2
       \<and> querystring_schema (q1\<lparr>q_excitement := x\<rparr>) = querystring_schema q1
       \<and> handler_options so q1 = handler_options so q2
       \<and> collectMetrics co (handler_options so q1) sched
           = collectMetrics co (handler_options so q2) sched
       \<and> metrics_handler serializeMetrics co so q1 sched
           = metrics_handler serializeMetrics co so q2 sched"
proof -
  from assms have "handler_options so q1 = handler_options so q2"
    by (simp add: handler_options_def)
  moreover from assms have "querystring_schema q1 = querystring_schema q2"
    and "querystring_schema (q1\<lparr>q_excitement := x\<rparr>) = querystring_schema q1"
    by simp_all
  ultimately show ?thesis
    by (simp add: metrics_handler_def)
qed

text \<open>
  The instance: the namespace \<open>prod\<close>, once with \<open>excitement = 7\<close> and once without, and
  the names of the records as a stand-in for the serializer.
\<close>

theorem excitement_unread_witness:
  "querystring_schema \<lparr>q_namespace = Some (One ''prod''), q_excitement = Some 7\<rparr>
   \<and> handler_options ex_server \<lparr>q_namespace = Some (One ''prod''), q_excitement = Some 7\<rparr>
       = ex_options [''prod''] 10
   \<and> handler_options ex_server \<lparr>q_namespace = Some (One ''prod''), q_excitement = None\<rparr>
       = ex_options [''prod''] 10
   \<and> metrics_handler (\<lambda>ms. concat (map m_name ms)) ex_cluster ex_server
         \<lparr>q_namespace = Some (One ''prod''), q_excitement = Some 7\<rparr> [0, 0]
       = metrics_handler (\<lambda>ms. concat (map m_name ms)) ex_cluster ex_server
         \<lparr>q_namespace = Some (One ''prod''), q_excitement = None\<rparr> [0, 0]"
proof -
  have ns: "q_namespace \<lparr>q_namespace = Some (One ''prod''), q_excitement = Some 7\<rparr>
      = q_namespace \<lparr>q_namespace = Some (One ''prod''), q_excitement = None\<rparr>"
    by simp
  from excitement_unread [OF ns, of "Some 3" ex_server ex_cluster "[0, 0]" "\<lambda>ms. concat (map m_name ms)"]
  have "metrics_handler (\<lambda>ms. concat (map m_name ms)) ex_cluster ex_server
         \<lparr>q_namespace = Some (One ''prod''), q_excitement = Some 7\<rparr> [0, 0]
       = metrics_handler (\<lambda>ms. concat (map m_name ms)) ex_cluster ex_server
         \<lparr>q_namespace = Some (One ''prod''), q_excitement = None\<rparr> [0, 0]"
    by blast
  then show ?thesis
    by (simp add: handler_options_def server_concurrency_def ex_server_def ex_options_def)
qed

end
